theory Spec2Isabelle
  imports Complex_Main
begin

section \<open>Core types (core/types.ts)\<close>

text \<open>
  JavaScript numbers are modelled as mathematical reals: rounding, overflow to
  \<open>Infinity\<close> and \<open>NaN\<close> are outside the model.  The one place
  where real inputs alone produce a non-finite value, the division by a zero cell size
  in the spatial hash, is written out in \<open>queryRadius\<close>.  Agent ids are
  integers (the engine assigns \<open>0..agentCount-1\<close>).

  TypeScript's interfaces are structural: an \<open>Agent\<close>, an \<open>Obstacle\<close>, a
  food source or a target is passed wherever a \<open>Vec2\<close> is expected.  The records
  below are extensions of \<open>Vec2\<close>, so the vector utilities accept them as the
  source does.  Fields that two interfaces share live in a common parent record
  (\<open>Body\<close> for \<open>x, y, vx, vy\<close> of agents and targets, \<open>Circle\<close> for
  \<open>x, y, radius\<close> of obstacles and food sources).  The field \<open>id\<close> is
  named \<open>agent_id\<close> (\<open>obstacle_id\<close> for an obstacle) and the obstacle's field
  \<open>type\<close> is named \<open>shape\<close>.
\<close>

record Vec2 =
  x :: real
  y :: real

datatype AgentState = Active | Stuck | Anomaly

record Body = Vec2 +
  vx :: real
  vy :: real

record Agent = Body +
  agent_id :: int
  heading :: real
  state :: AgentState

datatype AlgorithmType = Boids | AntColony | PSO

record Circle = Vec2 +
  radius :: real

datatype ObstacleShape = circle | rect

record Obstacle = Circle +
  obstacle_id :: int
  shape :: ObstacleShape
  width :: "real option"
  height :: "real option"

record SimConfig =
  algorithm :: AlgorithmType
  agentCount :: int
  worldWidth :: real
  worldHeight :: real
  maxSpeed :: real
  maxForce :: real
  separationWeight :: real
  alignmentWeight :: real
  cohesionWeight :: real
  separationRadius :: real
  neighborRadius :: real
  communicationRange :: real
  trailLength :: real
  speedMultiplier :: real

definition DEFAULT_CONFIG :: SimConfig where
  "DEFAULT_CONFIG =
     \<lparr>algorithm = Boids, agentCount = 200, worldWidth = 1200, worldHeight = 800,
      maxSpeed = 3, maxForce = 15 / 100, separationWeight = 15 / 10, alignmentWeight = 1,
      cohesionWeight = 1, separationRadius = 30, neighborRadius = 60,
      communicationRange = 80, trailLength = 30, speedMultiplier = 1\<rparr>"

section \<open>Vec2 math utilities (utils/vector.ts)\<close>

definition add :: "'a Vec2_scheme \<Rightarrow> 'b Vec2_scheme \<Rightarrow> Vec2" where
  "add a b = \<lparr>x = x a + x b, y = y a + y b\<rparr>"

definition sub :: "'a Vec2_scheme \<Rightarrow> 'b Vec2_scheme \<Rightarrow> Vec2" where
  "sub a b = \<lparr>x = x a - x b, y = y a - y b\<rparr>"

definition scale :: "'a Vec2_scheme \<Rightarrow> real \<Rightarrow> Vec2" where
  "scale v s = \<lparr>x = x v * s, y = y v * s\<rparr>"

definition mag :: "'a Vec2_scheme \<Rightarrow> real" where
  "mag v = sqrt (x v * x v + y v * y v)"

definition magSq :: "'a Vec2_scheme \<Rightarrow> real" where
  "magSq v = x v * x v + y v * y v"

definition normalize_v :: "'a Vec2_scheme \<Rightarrow> Vec2" where
  "normalize_v v =
     (let m = mag v in
      if m > 0 then \<lparr>x = x v / m, y = y v / m\<rparr> else \<lparr>x = 0, y = 0\<rparr>)"

definition limit :: "Vec2 \<Rightarrow> real \<Rightarrow> Vec2" where
  "limit v mx =
     (let msq = magSq v in
      if msq > mx * mx
      then (let m = sqrt msq in \<lparr>x = (x v / m) * mx, y = (y v / m) * mx\<rparr>)
      else v)"

definition dist_v :: "'a Vec2_scheme \<Rightarrow> 'b Vec2_scheme \<Rightarrow> real" where
  "dist_v a b = (let dx = x a - x b; dy = y a - y b in sqrt (dx * dx + dy * dy))"

definition distSq :: "'a Vec2_scheme \<Rightarrow> 'b Vec2_scheme \<Rightarrow> real" where
  "distSq a b = (let dx = x a - x b; dy = y a - y b in dx * dx + dy * dy)"

text \<open>\<open>Math.atan2\<close> on reals (the sign of a zero is not modelled).\<close>

definition atan2 :: "real \<Rightarrow> real \<Rightarrow> real" where
  "atan2 b a =
     (if a > 0 then arctan (b / a)
      else if a < 0 \<and> b \<ge> 0 then arctan (b / a) + pi
      else if a < 0 then arctan (b / a) - pi
      else if b > 0 then pi / 2
      else if b < 0 then - (pi / 2)
      else 0)"

definition heading_v :: "'a Vec2_scheme \<Rightarrow> real" where
  "heading_v v = atan2 (y v) (x v)"

definition zero_v :: Vec2 where
  "zero_v = \<lparr>x = 0, y = 0\<rparr>"

section \<open>Grid-based spatial hash (utils/spatialHash.ts)\<close>

text \<open>
  The grid is a \<open>Map\<close> from the string \<open>cx,cy\<close> to the agents of the cell.
  The two cell coordinates are integers and their rendering with a comma between them
  is injective, so the key is modelled as the pair itself.
\<close>

record SpatialHash =
  cellSize :: real
  grid :: "(int \<times> int) \<rightharpoonup> Agent list"

definition new_SpatialHash :: "real \<Rightarrow> SpatialHash" where
  "new_SpatialHash c = \<lparr>cellSize = c, grid = Map.empty\<rparr>"

definition key :: "int \<Rightarrow> int \<Rightarrow> int \<times> int" where
  "key cx cy = (cx, cy)"

definition cellCoords :: "SpatialHash \<Rightarrow> real \<Rightarrow> real \<Rightarrow> int \<times> int" where
  "cellCoords sh px py = (\<lfloor>px / cellSize sh\<rfloor>, \<lfloor>py / cellSize sh\<rfloor>)"

definition clear :: "SpatialHash \<Rightarrow> SpatialHash" where
  "clear sh = sh\<lparr>grid := Map.empty\<rparr>"

definition insert_sh :: "SpatialHash \<Rightarrow> Agent \<Rightarrow> SpatialHash" where
  "insert_sh sh agent =
     (let (cx, cy) = cellCoords sh (x agent) (y agent);
          k = key cx cy
      in case grid sh k of
           Some cell \<Rightarrow> sh\<lparr>grid := (grid sh)(k \<mapsto> cell @ [agent])\<rparr>
         | None \<Rightarrow> sh\<lparr>grid := (grid sh)(k \<mapsto> [agent])\<rparr>)"

definition insertAll :: "SpatialHash \<Rightarrow> Agent list \<Rightarrow> SpatialHash" where
  "insertAll sh agents = foldl insert_sh (clear sh) agents"

text \<open>
  \<open>queryRadius\<close>: the two nested loops run \<open>dx\<close> and \<open>dy\<close> from
  \<open>-span\<close> to \<open>span\<close>.  With a cell size of zero the quotient
  \<open>radius / cellSize\<close> is not finite: for a positive radius \<open>span\<close> is
  \<open>Infinity\<close> and the loop never ends (the result \<open>None\<close>); for a radius
  that is zero or negative \<open>span\<close> is \<open>NaN\<close> or \<open>-Infinity\<close> and the
  loop body never runs.  (With a zero cell size the keys written by \<open>insert\<close> are
  not finite either; no query that returns reads them, and the model's grid is not
  meaningful there.)
\<close>

definition inRange :: "real \<Rightarrow> real \<Rightarrow> real \<Rightarrow> int \<Rightarrow> Agent \<Rightarrow> bool" where
  "inRange qx qy r2 excludeId a =
     (agent_id a \<noteq> excludeId \<and>
      (let ddx = x a - qx; ddy = y a - qy in ddx * ddx + ddy * ddy \<le> r2))"

definition queryRadius ::
  "SpatialHash \<Rightarrow> real \<Rightarrow> real \<Rightarrow> real \<Rightarrow> int \<Rightarrow> Agent list option" where
  "queryRadius sh qx qy rad excludeId =
     (if cellSize sh = 0 then (if rad > 0 then None else Some [])
      else
        (let r2 = rad * rad;
             (cx, cy) = cellCoords sh qx qy;
             span = \<lceil>rad / cellSize sh\<rceil>
         in Some (concat (map (\<lambda>dx.
              concat (map (\<lambda>dy.
                case grid sh (key (cx + dx) (cy + dy)) of
                  None \<Rightarrow> []
                | Some cell \<Rightarrow> filter (inRange qx qy r2 excludeId) cell)
              [- span..span]))
            [- span..span]))))"


text \<open>An agent at rest, for the concrete examples below.\<close>

definition agent_at :: "int \<Rightarrow> real \<Rightarrow> real \<Rightarrow> Agent" where
  "agent_at i px py =
     \<lparr>x = px, y = py, vx = 0, vy = 0, agent_id = i, heading = 0, state = Active\<rparr>"

section \<open>Reynolds boids (algorithms/boids.ts)\<close>

text \<open>
  The per-agent debug breakdown (\<open>lastDebugInfo\<close>) is telemetry that no
  strategy reads back; it is left out of all three strategy models.  Without it
  \<open>BoidsAlgorithm\<close> has no state and its tick is a function of its arguments.
  A tick does not return (\<open>None\<close>) when a neighbour query does not.
\<close>

text \<open>The magnitude of an agent's velocity.\<close>

definition speed :: "'a Body_scheme \<Rightarrow> real" where
  "speed a = sqrt (vx a * vx a + vy a * vy a)"

definition velocity :: "'a Body_scheme \<Rightarrow> Vec2" where
  "velocity a = \<lparr>x = vx a, y = vy a\<rparr>"

definition position :: "'a Vec2_scheme \<Rightarrow> Vec2" where
  "position a = \<lparr>x = x a, y = y a\<rparr>"

definition separation_step :: "Agent \<Rightarrow> real \<Rightarrow> Vec2 \<times> nat \<Rightarrow> Agent \<Rightarrow> Vec2 \<times> nat" where
  "separation_step agent sepRadSq acc n =
     (let (steer, count) = acc; dsq = distSq agent n in
      if dsq > 0 \<and> dsq < sepRadSq
      then (add steer (scale (normalize_v (sub agent n)) (1 / sqrt dsq)), count + 1)
      else (steer, count))"

definition separation :: "Agent \<Rightarrow> Agent list \<Rightarrow> SimConfig \<Rightarrow> Vec2" where
  "separation agent neighbors config =
     (let sepRadSq = separationRadius config * separationRadius config;
          (steer, count) = foldl (separation_step agent sepRadSq) (zero_v, 0) neighbors
      in if count > 0
         then (let steer1 = scale steer (1 / real count) in
               if mag steer1 > 0
               then limit (sub (scale (normalize_v steer1) (maxSpeed config)) (velocity agent))
                      (maxForce config)
               else steer1)
         else steer)"

definition alignment :: "Agent \<Rightarrow> Agent list \<Rightarrow> SimConfig \<Rightarrow> Vec2" where
  "alignment agent neighbors config =
     (if length neighbors = 0 then zero_v
      else
        (let avg = foldl (\<lambda>acc n. add acc (velocity n)) zero_v neighbors;
             avg1 = scale avg (1 / real (length neighbors))
         in if mag avg1 > 0
            then limit (sub (scale (normalize_v avg1) (maxSpeed config)) (velocity agent))
                   (maxForce config)
            else avg1))"

definition cohesion :: "Agent \<Rightarrow> Agent list \<Rightarrow> SimConfig \<Rightarrow> Vec2" where
  "cohesion agent neighbors config =
     (if length neighbors = 0 then zero_v
      else
        (let center = foldl (\<lambda>acc n. add acc (position n)) zero_v neighbors;
             center1 = scale center (1 / real (length neighbors));
             desired = sub center1 (position agent)
         in if mag desired > 0
            then limit (sub (scale (normalize_v desired) (maxSpeed config)) (velocity agent))
                   (maxForce config)
            else desired))"

definition avoidObstacles_step :: "Agent \<Rightarrow> SimConfig \<Rightarrow> Vec2 \<Rightarrow> Obstacle \<Rightarrow> Vec2" where
  "avoidObstacles_step agent config steer obs =
     (let dx = x agent - x obs;
          dy = y agent - y obs;
          d = sqrt (dx * dx + dy * dy);
          boundary = radius obs + 50
      in if d < boundary \<and> d > 0
         then add steer (scale (normalize_v \<lparr>x = dx, y = dy\<rparr>)
                (maxSpeed config * (1 - d / boundary)))
         else steer)"

definition avoidObstacles :: "Agent \<Rightarrow> Obstacle list \<Rightarrow> SimConfig \<Rightarrow> Vec2" where
  "avoidObstacles agent obstacles config =
     limit (foldl (avoidObstacles_step agent config) zero_v obstacles) (maxForce config)"

text \<open>The body of the loop over the agents, for one agent and its neighbours.\<close>

definition boids_update :: "Agent \<Rightarrow> Agent list \<Rightarrow> SimConfig \<Rightarrow> Obstacle list \<Rightarrow> Agent" where
  "boids_update agent neighbors config obstacles =
     (let sep = separation agent neighbors config;
          ali = alignment agent neighbors config;
          coh = cohesion agent neighbors config;
          obs = avoidObstacles agent obstacles config;
          sepW = scale sep (separationWeight config);
          aliW = scale ali (alignmentWeight config);
          cohW = scale coh (cohesionWeight config);
          obsW = scale obs 3;
          force0 = add (add (add (add zero_v sepW) aliW) cohW) obsW;
          force = limit force0 (maxForce config);
          vel = limit \<lparr>x = vx agent + x force, y = vy agent + y force\<rparr> (maxSpeed config);
          newVx = x vel;
          newVy = y vel;
          newX0 = x agent + newVx * speedMultiplier config;
          newY0 = y agent + newVy * speedMultiplier config;
          newX1 = (if newX0 < 0 then newX0 + worldWidth config else newX0);
          newX = (if newX1 \<ge> worldWidth config then newX1 - worldWidth config else newX1);
          newY1 = (if newY0 < 0 then newY0 + worldHeight config else newY0);
          newY = (if newY1 \<ge> worldHeight config then newY1 - worldHeight config else newY1)
      in \<lparr>x = newX, y = newY, vx = newVx, vy = newVy, agent_id = agent_id agent,
          heading = heading_v vel, state = Active\<rparr>)"

fun boids_loop :: "Agent list \<Rightarrow> SimConfig \<Rightarrow> Obstacle list \<Rightarrow> SpatialHash \<Rightarrow> Agent list option" where
  "boids_loop [] config obstacles spatialHash = Some []"
| "boids_loop (agent # rest) config obstacles spatialHash =
     (case queryRadius spatialHash (x agent) (y agent) (neighborRadius config) (agent_id agent) of
        None \<Rightarrow> None
      | Some neighbors \<Rightarrow>
          (case boids_loop rest config obstacles spatialHash of
             None \<Rightarrow> None
           | Some updated \<Rightarrow> Some (boids_update agent neighbors config obstacles # updated)))"

definition boids_tick :: "Agent list \<Rightarrow> SimConfig \<Rightarrow> Obstacle list \<Rightarrow> SpatialHash \<Rightarrow> Agent list option" where
  "boids_tick agents config obstacles spatialHash = boids_loop agents config obstacles spatialHash"

section \<open>The random source\<close>

text \<open>
  \<open>Math.random()\<close> is global state.  It is modelled as an explicit stream of
  draws that every function using it takes and returns; nothing is assumed about the
  values drawn.
\<close>

type_synonym rng = "nat \<Rightarrow> real"

definition Math_random :: "rng \<Rightarrow> real \<times> rng" where
  "Math_random r = (r 0, \<lambda>n. r (Suc n))"

text \<open>The remainder operator \<open>%\<close> on integers: the sign follows the dividend.\<close>

definition js_rem :: "int \<Rightarrow> int \<Rightarrow> int" where
  "js_rem a b = sgn a * (\<bar>a\<bar> mod \<bar>b\<bar>)"

datatype js_error = RangeError | TypeError

section \<open>Ant colony optimisation (algorithms/antColony.ts)\<close>

datatype AntMode = Search | Return

record AntMemory =
  mode :: AntMode
  wanderAngle :: real
  targetFoodIdx :: int
  stepsSearching :: nat

text \<open>
  \<open>initialized\<close> and \<open>tickCount\<close> are fields of both the ant colony and the
  particle swarm; they live in a common parent record.  The private field
  \<open>cellSize = 8\<close> is never written and is a constant here.
\<close>

record StrategyBase =
  initialized :: bool
  tickCount :: nat

record AntColonyAlgorithm = StrategyBase +
  pheromoneGrid :: "real list"
  gridCols :: int
  gridRows :: int
  nestX :: real
  nestY :: real
  foodSources :: "Circle list"
  ants :: "int \<rightharpoonup> AntMemory"

definition pheromoneCellSize :: real where
  "pheromoneCellSize = 8"

definition new_AntColonyAlgorithm :: AntColonyAlgorithm where
  "new_AntColonyAlgorithm =
     \<lparr>initialized = False, tickCount = 0, pheromoneGrid = [], gridCols = 0, gridRows = 0,
      nestX = 0, nestY = 0, foodSources = [], ants = Map.empty\<rparr>"

text \<open>
  \<open>init\<close>: \<open>new Float32Array(n)\<close> throws a \<open>RangeError\<close> for a negative
  length, which happens when exactly one of the two world dimensions is \<open>-8\<close> or
  less.  The exception leaves the instance uninitialised (the two grid dimensions
  already assigned are assigned again by the next \<open>init\<close>).
\<close>

definition ant_init :: "AntColonyAlgorithm \<Rightarrow> SimConfig \<Rightarrow> js_error + AntColonyAlgorithm" where
  "ant_init s config =
     (let cols = \<lceil>worldWidth config / pheromoneCellSize\<rceil>;
          rows = \<lceil>worldHeight config / pheromoneCellSize\<rceil>
      in if cols * rows < 0 then Inl RangeError
         else Inr (s\<lparr>gridCols := cols, gridRows := rows,
                pheromoneGrid := replicate (nat (cols * rows)) 0,
                nestX := worldWidth config * (12 / 100),
                nestY := worldHeight config * (5 / 10),
                foodSources :=
                  [\<lparr>x = worldWidth config * (85 / 100), y = worldHeight config * (2 / 10), radius = 25\<rparr>,
                   \<lparr>x = worldWidth config * (80 / 100), y = worldHeight config * (8 / 10), radius = 25\<rparr>,
                   \<lparr>x = worldWidth config * (55 / 100), y = worldHeight config * (12 / 100), radius = 20\<rparr>,
                   \<lparr>x = worldWidth config * (60 / 100), y = worldHeight config * (88 / 100), radius = 20\<rparr>,
                   \<lparr>x = worldWidth config * (45 / 100), y = worldHeight config * (5 / 10), radius = 15\<rparr>],
                initialized := True\<rparr>))"

text \<open>Evaporation: every cell is multiplied by 0.993 and snapped to 0 below 0.01.\<close>

definition evaporate_cell :: "real \<Rightarrow> real" where
  "evaporate_cell v = (let v1 = v * (993 / 1000) in if v1 < 1 / 100 then 0 else v1)"

definition evaporate :: "AntColonyAlgorithm \<Rightarrow> AntColonyAlgorithm" where
  "evaporate s = s\<lparr>pheromoneGrid := map evaporate_cell (pheromoneGrid s)\<rparr>"

text \<open>
  Grid cells are read at an index the source has just checked against
  \<open>gridCols\<close> and \<open>gridRows\<close>; the grid holds \<open>gridCols * gridRows\<close> cells
  from \<open>init\<close> on (\<open>grid_wf\<close> below), so these reads are in range.  A write
  outside a typed array is ignored, as \<open>list_update\<close> does.
\<close>

definition inGrid :: "AntColonyAlgorithm \<Rightarrow> int \<Rightarrow> int \<Rightarrow> bool" where
  "inGrid s nx ny = (nx \<ge> 0 \<and> nx < gridCols s \<and> ny \<ge> 0 \<and> ny < gridRows s)"

definition cellAt :: "AntColonyAlgorithm \<Rightarrow> int \<Rightarrow> int \<Rightarrow> real" where
  "cellAt s nx ny = pheromoneGrid s ! nat (ny * gridCols s + nx)"

definition depositPheromone_step ::
  "int \<Rightarrow> int \<Rightarrow> real \<Rightarrow> AntColonyAlgorithm \<Rightarrow> int \<times> int \<Rightarrow> AntColonyAlgorithm" where
  "depositPheromone_step cx cy strength s off =
     (let (dx, dy) = off; nx = cx + dx; ny = cy + dy in
      if inGrid s nx ny
      then (let idx = ny * gridCols s + nx;
                a = (if dx = 0 \<and> dy = 0 then strength else strength * (3 / 10))
            in s\<lparr>pheromoneGrid := (pheromoneGrid s)[nat idx := min (pheromoneGrid s ! nat idx + a) 12]\<rparr>)
      else s)"

definition depositPheromone :: "AntColonyAlgorithm \<Rightarrow> real \<Rightarrow> real \<Rightarrow> real \<Rightarrow> AntColonyAlgorithm" where
  "depositPheromone s px py strength =
     (let cx = \<lfloor>px / pheromoneCellSize\<rfloor>;
          cy = \<lfloor>py / pheromoneCellSize\<rfloor>
      in foldl (depositPheromone_step cx cy strength) s
           [(0, 0), (1, 0), (- 1, 0), (0, 1), (0, - 1)])"

definition diffuse_acc ::
  "AntColonyAlgorithm \<Rightarrow> int \<Rightarrow> int \<Rightarrow> real \<times> real \<Rightarrow> int \<times> int \<Rightarrow> real \<times> real" where
  "diffuse_acc s cx cy acc off =
     (let (sum, count) = acc; (dx, dy) = off in
      if dx = 0 \<and> dy = 0 then (sum, count)
      else (let nx = cx + dx; ny = cy + dy in
            if inGrid s nx ny
            then (sum + cellAt s nx ny * (5 / 100), count + 5 / 100)
            else (sum, count)))"

definition neighbourOffsets :: "(int \<times> int) list" where
  "neighbourOffsets = concat (map (\<lambda>dy. map (\<lambda>dx. (dx, dy)) [- 1, 0, 1]) [- 1, 0, 1])"

definition diffuse_value :: "AntColonyAlgorithm \<Rightarrow> int \<Rightarrow> int \<Rightarrow> real" where
  "diffuse_value s cx cy =
     (let (sum, count) =
            foldl (diffuse_acc s cx cy) (cellAt s cx cy * (6 / 10), 6 / 10) neighbourOffsets
      in sum / count)"

definition diffusePheromones :: "AntColonyAlgorithm \<Rightarrow> AntColonyAlgorithm" where
  "diffusePheromones s =
     (let newGrid0 = replicate (length (pheromoneGrid s)) 0;
          newGrid =
            foldl (\<lambda>g cy.
              foldl (\<lambda>g' cx. g'[nat (cy * gridCols s + cx) := diffuse_value s cx cy])
                g [0..gridCols s - 1])
              newGrid0 [0..gridRows s - 1]
      in s\<lparr>pheromoneGrid := newGrid\<rparr>)"

definition samplePheromone :: "AntColonyAlgorithm \<Rightarrow> real \<Rightarrow> real \<Rightarrow> real" where
  "samplePheromone s px py =
     (let cx = \<lfloor>px / pheromoneCellSize\<rfloor>;
          cy = \<lfloor>py / pheromoneCellSize\<rfloor>
      in if cx < 0 \<or> cx \<ge> gridCols s \<or> cy < 0 \<or> cy \<ge> gridRows s then 0
         else cellAt s cx cy)"

definition wanderForce :: "AntMemory \<Rightarrow> rng \<Rightarrow> Vec2 \<times> AntMemory \<times> rng" where
  "wanderForce mem r =
     (let (u, r1) = Math_random r;
          mem1 = mem\<lparr>wanderAngle := wanderAngle mem + (u - 5 / 10) * (9 / 10)\<rparr>
      in (\<lparr>x = cos (wanderAngle mem1) * (8 / 10), y = sin (wanderAngle mem1) * (8 / 10)\<rparr>,
          mem1, r1))"

definition senseAndSteerPheromone ::
  "AntColonyAlgorithm \<Rightarrow> Agent \<Rightarrow> AntMemory \<Rightarrow> rng \<Rightarrow> Vec2 \<times> AntMemory \<times> rng" where
  "senseAndSteerPheromone s agent mem r =
     (let senseAngle = 6 / 10;
          senseDistance = 30;
          sense = (\<lambda>angle. samplePheromone s (x agent + cos angle * senseDistance)
                                              (y agent + sin angle * senseDistance));
          left = sense (wanderAngle mem - senseAngle);
          center = sense (wanderAngle mem);
          right = sense (wanderAngle mem + senseAngle);
          total = left + center + right
      in if total < 1 / 10 then (zero_v, mem, r)
         else
           (let (u, r1) = Math_random r;
                rand = u * total;
                mem1 = (if rand < left then mem\<lparr>wanderAngle := wanderAngle mem - 25 / 100\<rparr>
                        else if rand < left + center then mem
                        else mem\<lparr>wanderAngle := wanderAngle mem + 25 / 100\<rparr>);
                strength = max (max left center) right
            in (\<lparr>x = cos (wanderAngle mem1) * min strength 1,
                 y = sin (wanderAngle mem1) * min strength 1\<rparr>, mem1, r1)))"

text \<open>
  The loop over the food sources: the index of the first food source whose distance to
  the agent is below its radius.
\<close>

fun findFood :: "Agent \<Rightarrow> Circle list \<Rightarrow> nat \<Rightarrow> nat option" where
  "findFood agent [] fi = None"
| "findFood agent (food # rest) fi =
     (if dist_v agent food < radius food then Some fi else findFood agent rest (Suc fi))"

text \<open>The block \<open>if (mem.mode === 'search')\<close>; it returns the force and the memory.\<close>

definition searchBranch ::
  "AntColonyAlgorithm \<Rightarrow> Agent \<Rightarrow> AntMemory \<Rightarrow> rng \<Rightarrow> Vec2 \<times> AntMemory \<times> rng" where
  "searchBranch s agent mem0 r0 =
     (let mem1 = mem0\<lparr>stepsSearching := stepsSearching mem0 + 1\<rparr> in
      case findFood agent (foodSources s) 0 of
        Some fi \<Rightarrow>
          (zero_v, mem1\<lparr>mode := Return, targetFoodIdx := int fi, stepsSearching := 0\<rparr>, r0)
      | None \<Rightarrow>
          (let isExplorer = (js_rem (agent_id agent) 10 < 3);
               (force, mem2, r2) =
                 (if isExplorer \<or> stepsSearching mem1 < 50
                  then (let (w, m, r) = wanderForce mem1 r0 in (scale w (15 / 10), m, r))
                  else (let (phero, m, r) = senseAndSteerPheromone s agent mem1 r0;
                            (wander, m', r') = wanderForce m r
                        in if mag phero > 5 / 100
                           then (add (scale phero (15 / 10)) (scale wander (8 / 10)), m', r')
                           else (scale wander (12 / 10), m', r')))
           in if stepsSearching mem2 > 300 \<and> stepsSearching mem2 mod 50 = 0
              then (let (u, r3) = Math_random r2
                    in (force, mem2\<lparr>wanderAngle := wanderAngle mem2 + (u - 5 / 10) * pi\<rparr>, r3))
              else (force, mem2, r2)))"

text \<open>
  The block \<open>if (mem.mode === 'return')\<close>.  Reading \<open>foodSources[targetFoodIdx]\<close>
  beyond the list gives \<open>undefined\<close>, and \<open>dist\<close> then throws a
  \<open>TypeError\<close>.
\<close>

definition returnBranch ::
  "AntColonyAlgorithm \<Rightarrow> SimConfig \<Rightarrow> Agent \<Rightarrow> AntMemory \<Rightarrow> rng \<Rightarrow>
     js_error + (Vec2 \<times> AntMemory \<times> AntColonyAlgorithm \<times> rng)" where
  "returnBranch s config agent mem r0 =
     (if targetFoodIdx mem \<ge> 0 \<and> \<not> nat (targetFoodIdx mem) < length (foodSources s)
      then Inl TypeError
      else
        (let foodDist = (if targetFoodIdx mem \<ge> 0
                         then dist_v agent (foodSources s ! nat (targetFoodIdx mem))
                         else 100);
             strength = max (5 / 10) (3 - foodDist * (5 / 1000));
             s1 = depositPheromone s (x agent) (y agent) strength;
             toNest = sub \<lparr>x = nestX s, y = nestY s\<rparr> agent;
             nestDist = mag toNest
         in if nestDist < 15
            then (let (u, r1) = Math_random r0;
                      mem1 = mem\<lparr>mode := Search, targetFoodIdx := - 1, stepsSearching := 0,
                                 wanderAngle := u * pi * 2\<rparr>
                  in Inr (\<lparr>x = cos (wanderAngle mem1) * 2, y = sin (wanderAngle mem1) * 2\<rparr>,
                          mem1, s1, r1))
            else (let force0 = scale (normalize_v toNest) (maxSpeed config * (9 / 10));
                      (u, r1) = Math_random r0;
                      wobble = (u - 5 / 10) * (4 / 10)
                  in Inr (add force0
                            \<lparr>x = cos (heading_v toNest + pi / 2) * wobble,
                             y = sin (heading_v toNest + pi / 2) * wobble\<rparr>,
                          mem, s1, r1))))"

definition antObstacle_step :: "Agent \<Rightarrow> SimConfig \<Rightarrow> Vec2 \<Rightarrow> Obstacle \<Rightarrow> Vec2" where
  "antObstacle_step agent config force obs =
     (let d = dist_v agent obs;
          boundary = radius obs + 30
      in if d < boundary \<and> d > 0
         then add force (scale (normalize_v (sub agent obs))
                (maxSpeed config * 2 * (1 - d / boundary)))
         else force)"

definition wallAvoidance :: "Agent \<Rightarrow> SimConfig \<Rightarrow> Vec2 \<Rightarrow> Vec2" where
  "wallAvoidance agent config force0 =
     (let margin = 25;
          force1 = (if x agent < margin then add force0 \<lparr>x = 2, y = 0\<rparr> else force0);
          force2 = (if x agent > worldWidth config - margin
                    then add force1 \<lparr>x = - 2, y = 0\<rparr> else force1);
          force3 = (if y agent < margin then add force2 \<lparr>x = 0, y = 2\<rparr> else force2)
      in if y agent > worldHeight config - margin
         then add force3 \<lparr>x = 0, y = - 2\<rparr> else force3)"

text \<open>
  The rest of the loop body: obstacle and wall avoidance, the force and speed limits and
  the position clamp, from the force and the memory the two mode blocks left.
\<close>

definition antMove :: "Agent \<Rightarrow> AntMemory \<Rightarrow> Vec2 \<Rightarrow> SimConfig \<Rightarrow> Obstacle list \<Rightarrow> Agent" where
  "antMove agent mem force0 config obstacles =
     (let force1 = foldl (antObstacle_step agent config) force0 obstacles;
          force2 = wallAvoidance agent config force1;
          force = limit force2 (maxForce config * 3);
          newVx0 = vx agent * (8 / 10) + x force;
          newVy0 = vy agent * (8 / 10) + y force;
          speed = (if mode mem = Return then maxSpeed config * (8 / 10)
                   else maxSpeed config * (6 / 10));
          vel = limit \<lparr>x = newVx0, y = newVy0\<rparr> speed;
          newVx = x vel;
          newVy = y vel;
          newX0 = x agent + newVx * speedMultiplier config;
          newY0 = y agent + newVy * speedMultiplier config;
          newX = max 1 (min (worldWidth config - 1) newX0);
          newY = max 1 (min (worldHeight config - 1) newY0)
      in \<lparr>x = newX, y = newY, vx = newVx, vy = newVy, agent_id = agent_id agent,
          heading = heading_v vel,
          state = (if mode mem = Return then Stuck else Active)\<rparr>)"

text \<open>
  One iteration of the loop over the agents.  \<open>mem\<close> is the object stored in the
  map \<open>ants\<close>: the source mutates it in place, the model writes it back.
\<close>

definition antMemoryOf :: "AntColonyAlgorithm \<Rightarrow> Agent \<Rightarrow> rng \<Rightarrow> AntMemory \<times> rng" where
  "antMemoryOf s agent r =
     (case ants s (agent_id agent) of
        Some mem \<Rightarrow> (mem, r)
      | None \<Rightarrow>
          (let (u, r1) = Math_random r
           in (\<lparr>mode = Search, wanderAngle = u * pi * 2, targetFoodIdx = - 1,
                stepsSearching = 0\<rparr>, r1)))"

definition antStep ::
  "AntColonyAlgorithm \<Rightarrow> rng \<Rightarrow> SimConfig \<Rightarrow> Obstacle list \<Rightarrow> Agent \<Rightarrow>
     js_error + (Agent \<times> AntColonyAlgorithm \<times> rng)" where
  "antStep s r config obstacles agent =
     (let (mem0, r0) = antMemoryOf s agent r;
          (force1, mem1, r1) =
            (if mode mem0 = Search then searchBranch s agent mem0 r0 else (zero_v, mem0, r0))
      in if mode mem1 = Return
         then (case returnBranch s config agent mem1 r1 of
                 Inl e \<Rightarrow> Inl e
               | Inr (force2, mem2, s2, r2) \<Rightarrow>
                   Inr (antMove agent mem2 force2 config obstacles,
                        s2\<lparr>ants := (ants s2)(agent_id agent \<mapsto> mem2)\<rparr>, r2))
         else Inr (antMove agent mem1 force1 config obstacles,
                   s\<lparr>ants := (ants s)(agent_id agent \<mapsto> mem1)\<rparr>, r1))"

fun antLoop ::
  "AntColonyAlgorithm \<Rightarrow> rng \<Rightarrow> SimConfig \<Rightarrow> Obstacle list \<Rightarrow> Agent list \<Rightarrow>
     js_error + (Agent list \<times> AntColonyAlgorithm \<times> rng)" where
  "antLoop s r config obstacles [] = Inr ([], s, r)"
| "antLoop s r config obstacles (agent # rest) =
     (case antStep s r config obstacles agent of
        Inl e \<Rightarrow> Inl e
      | Inr (a', s1, r1) \<Rightarrow>
          (case antLoop s1 r1 config obstacles rest of
             Inl e \<Rightarrow> Inl e
           | Inr (updated, s2, r2) \<Rightarrow> Inr (a' # updated, s2, r2)))"

text \<open>The part of \<open>tick\<close> before the loop: \<open>init\<close>, the tick count and the field.\<close>

definition antFieldUpdate :: "AntColonyAlgorithm \<Rightarrow> AntColonyAlgorithm" where
  "antFieldUpdate s0 =
     (let s1 = s0\<lparr>tickCount := tickCount s0 + 1\<rparr>;
          s2 = evaporate s1
      in if tickCount s2 mod 4 = 0 then diffusePheromones s2 else s2)"

definition ant_tick ::
  "AntColonyAlgorithm \<Rightarrow> rng \<Rightarrow> Agent list \<Rightarrow> SimConfig \<Rightarrow> Obstacle list \<Rightarrow>
     js_error + (Agent list \<times> AntColonyAlgorithm \<times> rng)" where
  "ant_tick s r agents config obstacles =
     (case (if initialized s then Inr s else ant_init s config) of
        Inl e \<Rightarrow> Inl e
      | Inr s0 \<Rightarrow> antLoop (antFieldUpdate s0) r config obstacles agents)"

text \<open>The speed cap of an ant, by its mode: the \<open>speed\<close> of the loop body.\<close>

definition antSpeedCap :: "SimConfig \<Rightarrow> AntMode \<Rightarrow> real" where
  "antSpeedCap cfg m = (if m = Return then maxSpeed cfg * (8 / 10) else maxSpeed cfg * (6 / 10))"

text \<open>The distance to the nest that the return block tests: \<open>mag(toNest)\<close>.\<close>

definition nestDist :: "AntColonyAlgorithm \<Rightarrow> Agent \<Rightarrow> real" where
  "nestDist s a = mag (sub \<lparr>x = nestX s, y = nestY s\<rparr> a)"

text \<open>The memory and force with which an iteration reaches the block for the return mode.\<close>

definition afterSearch ::
  "AntColonyAlgorithm \<Rightarrow> rng \<Rightarrow> Agent \<Rightarrow> Vec2 \<times> AntMemory \<times> rng" where
  "afterSearch s r a =
     (let (mem0, r0) = antMemoryOf s a r
      in if mode mem0 = Search then searchBranch s a mem0 r0 else (zero_v, mem0, r0))"

text \<open>The test of the loop over the food sources, for the food source of index \<open>fi\<close>.\<close>

definition foodInReach :: "AntColonyAlgorithm \<Rightarrow> Agent \<Rightarrow> nat \<Rightarrow> bool" where
  "foodInReach s a fi =
     (fi < length (foodSources s) \<and>
      dist_v a (foodSources s ! fi) < radius (foodSources s ! fi))"


section \<open>Particle swarm optimisation (algorithms/pso.ts)\<close>

text \<open>
  Fitness values are distances, or the sentinel \<open>Infinity\<close> that both best-so-far
  variables start from.  \<open>fit_less\<close> is the comparison \<open><\<close> of the source on
  these values.
\<close>

datatype fitness = Finite real | Infinity

fun fit_less :: "fitness \<Rightarrow> fitness \<Rightarrow> bool" where
  "fit_less (Finite a) (Finite b) = (a < b)"
| "fit_less (Finite a) Infinity = True"
| "fit_less Infinity b = False"

definition fit_le :: "fitness \<Rightarrow> fitness \<Rightarrow> bool" where
  "fit_le a b = (\<not> fit_less b a)"

record ParticleMemory =
  personalBestX :: real
  personalBestY :: real
  personalBestFitness :: fitness

type_synonym Target = Body

record PSOAlgorithm = StrategyBase +
  globalBestFitness :: fitness
  particles :: "int \<rightharpoonup> ParticleMemory"
  targets :: "Target list"

definition new_PSOAlgorithm :: PSOAlgorithm where
  "new_PSOAlgorithm =
     \<lparr>initialized = False, tickCount = 0, globalBestFitness = Infinity,
      particles = Map.empty, targets = []\<rparr>"

definition pso_init :: "PSOAlgorithm \<Rightarrow> SimConfig \<Rightarrow> PSOAlgorithm" where
  "pso_init s config =
     s\<lparr>targets :=
         [\<lparr>x = worldWidth config * (25 / 100), y = worldHeight config * (25 / 100),
           vx = 25 / 10, vy = 18 / 10\<rparr>,
          \<lparr>x = worldWidth config * (75 / 100), y = worldHeight config * (75 / 100),
           vx = - 2, vy = 22 / 10\<rparr>,
          \<lparr>x = worldWidth config * (5 / 10), y = worldHeight config * (15 / 100),
           vx = 15 / 10, vy = - (15 / 10)\<rparr>],
       globalBestFitness := Infinity,
       particles := Map.empty,
       initialized := True\<rparr>"

definition pso_fitness :: "PSOAlgorithm \<Rightarrow> real \<Rightarrow> real \<Rightarrow> fitness" where
  "pso_fitness s px py =
     foldl (\<lambda>best t.
        (let dx = px - x t; dy = py - y t; d = sqrt (dx * dx + dy * dy)
         in if fit_less (Finite d) best then Finite d else best))
       Infinity (targets s)"

text \<open>
  \<open>nearestTarget\<close> starts from \<open>targets[0]\<close>, which is \<open>undefined\<close>
  (\<open>None\<close>) for an empty list.
\<close>

definition nearestTarget :: "PSOAlgorithm \<Rightarrow> real \<Rightarrow> real \<Rightarrow> Target option" where
  "nearestTarget s px py =
     fst (foldl (\<lambda>(best, bestD) t.
            (let d = (px - x t)\<^sup>2 + (py - y t)\<^sup>2
             in if fit_less (Finite d) bestD then (Some t, Finite d) else (best, bestD)))
          (case targets s of [] \<Rightarrow> None | t # _ \<Rightarrow> Some t, Infinity) (targets s))"

definition moveTarget :: "SimConfig \<Rightarrow> Target \<Rightarrow> Target" where
  "moveTarget config t0 =
     (let t1 = t0\<lparr>x := x t0 + vx t0\<rparr>;
          t2 = t1\<lparr>y := y t1 + vy t1\<rparr>;
          t3 = (if x t2 < 40 \<or> x t2 > worldWidth config - 40
                then t2\<lparr>vx := vx t2 * (- 1), x := max 40 (min (worldWidth config - 40) (x t2))\<rparr>
                else t2)
      in if y t3 < 40 \<or> y t3 > worldHeight config - 40
         then t3\<lparr>vy := vy t3 * (- 1), y := max 40 (min (worldHeight config - 40) (y t3))\<rparr>
         else t3)"

text \<open>
  The block run when the tick count is a multiple of 120: one target is teleported and
  all memory is wiped.  With no targets the index is \<open>NaN | 0 = 0\<close> and the write
  to \<open>targets[0].x\<close> throws a \<open>TypeError\<close>.
\<close>

definition teleport :: "PSOAlgorithm \<Rightarrow> rng \<Rightarrow> SimConfig \<Rightarrow> js_error + (PSOAlgorithm \<times> rng)" where
  "teleport s r0 config =
     (if targets s = [] then Inl TypeError
      else
        (let idx = (tickCount s div 120) mod length (targets s);
             (u1, r1) = Math_random r0;
             (u2, r2) = Math_random r1;
             (u3, r3) = Math_random r2;
             (u4, r4) = Math_random r3;
             angle = u3 * pi * 2;
             speed = 15 / 10 + u4 * 2;
             t = (targets s ! idx)\<lparr>x := 80 + u1 * (worldWidth config - 160),
                                     y := 80 + u2 * (worldHeight config - 160),
                                     vx := cos angle * speed,
                                     vy := sin angle * speed\<rparr>
         in Inr (s\<lparr>targets := (targets s)[idx := t],
                   particles := Map.empty,
                   globalBestFitness := Infinity\<rparr>, r4)))"

text \<open>
  The part of \<open>tick\<close> before the loop over the agents: \<open>init\<close>, the tick count,
  the moving targets and the teleport.
\<close>

definition psoPrelude :: "PSOAlgorithm \<Rightarrow> rng \<Rightarrow> SimConfig \<Rightarrow> js_error + (PSOAlgorithm \<times> rng)" where
  "psoPrelude s r config =
     (let s0 = (if initialized s then s else pso_init s config);
          s1 = s0\<lparr>tickCount := tickCount s0 + 1\<rparr>;
          s2 = s1\<lparr>targets := map (moveTarget config) (targets s1)\<rparr>
      in if tickCount s2 mod 120 = 0 then teleport s2 r config else Inr (s2, r))"

text \<open>The first half of the loop body: the particle's memory and the two bests.\<close>

definition psoRemember :: "PSOAlgorithm \<Rightarrow> Agent \<Rightarrow> PSOAlgorithm \<times> ParticleMemory" where
  "psoRemember s agent =
     (let (s1, mem) =
            (case particles s (agent_id agent) of
               Some m \<Rightarrow> (s, m)
             | None \<Rightarrow>
                 (let fit = pso_fitness s (x agent) (y agent);
                      m = \<lparr>personalBestX = x agent, personalBestY = y agent,
                           personalBestFitness = fit\<rparr>;
                      s' = s\<lparr>particles := (particles s)(agent_id agent \<mapsto> m)\<rparr>
                  in (if fit_less fit (globalBestFitness s')
                      then s'\<lparr>globalBestFitness := fit\<rparr> else s', m)));
          currentFitness = pso_fitness s1 (x agent) (y agent);
          mem1 = (if fit_less currentFitness (personalBestFitness mem)
                  then mem\<lparr>personalBestX := x agent, personalBestY := y agent,
                           personalBestFitness := currentFitness\<rparr>
                  else mem);
          s2 = s1\<lparr>particles := (particles s1)(agent_id agent \<mapsto> mem1)\<rparr>
      in (if fit_less currentFitness (globalBestFitness s2)
          then s2\<lparr>globalBestFitness := currentFitness\<rparr> else s2, mem1))"

definition psoObstacle_step :: "Agent \<Rightarrow> SimConfig \<Rightarrow> Vec2 \<Rightarrow> Obstacle \<Rightarrow> Vec2" where
  "psoObstacle_step agent config v obs =
     (let d = dist_v agent obs;
          boundary = radius obs + 40
      in if d < boundary \<and> d > 0
         then (let away = normalize_v (sub agent obs)
               in \<lparr>x = x v + x away * maxSpeed config * (1 - d / boundary),
                   y = y v + y away * maxSpeed config * (1 - d / boundary)\<rparr>)
         else v)"

text \<open>
  The wall bounce on one axis, for a velocity component \<open>v\<close>, a position \<open>p\<close>
  and the upper wall \<open>hi\<close>: the two \<open>if\<close> statements of the source, in
  their order.
\<close>

definition wallBounce :: "real \<Rightarrow> real \<Rightarrow> real \<Rightarrow> real \<times> real" where
  "wallBounce v p hi =
     (let (v1, p1) = (if p < 10 then (\<bar>v\<bar>, 10) else (v, p))
      in if p1 > hi then (- \<bar>v1\<bar>, hi) else (v1, p1))"

text \<open>The second half of the loop body: the new velocity, position and state.\<close>

definition psoMove ::
  "Agent \<Rightarrow> ParticleMemory \<Rightarrow> Target \<Rightarrow> rng \<Rightarrow> SimConfig \<Rightarrow> Obstacle list \<Rightarrow> Agent \<times> rng" where
  "psoMove agent mem nearest r0 config obstacles =
     (let (r1', ra) = Math_random r0;
          (r2', rb) = Math_random ra;
          toTarget = sub nearest agent;
          targetPull = scale toTarget ((2 / 100) * r2');
          toPersonal = sub \<lparr>x = personalBestX mem, y = personalBestY mem\<rparr> agent;
          cognitive = scale toPersonal ((15 / 1000) * r1');
          (n1, rc) = Math_random rb;
          (n2, rd) = Math_random rc;
          noise = \<lparr>x = (n1 - 5 / 10) * (12 / 10), y = (n2 - 5 / 10) * (12 / 10)\<rparr>;
          inertia = 75 / 100;
          v0 = \<lparr>x = inertia * vx agent + x cognitive + x targetPull + x noise,
                y = inertia * vy agent + y cognitive + y targetPull + y noise\<rparr>;
          v1 = foldl (psoObstacle_step agent config) v0 obstacles;
          vel = limit v1 (maxSpeed config);
          newX0 = x agent + x vel * speedMultiplier config;
          newY0 = y agent + y vel * speedMultiplier config;
          (newVx, newX) = wallBounce (x vel) newX0 (worldWidth config - 10);
          (newVy, newY) = wallBounce (y vel) newY0 (worldHeight config - 10);
          nearTarget = (dist_v \<lparr>x = newX, y = newY\<rparr> nearest < 35)
      in (\<lparr>x = newX, y = newY, vx = newVx, vy = newVy, agent_id = agent_id agent,
           heading = heading_v vel,
           state = (if nearTarget then Stuck else Active)\<rparr>, rd))"

definition psoStep ::
  "PSOAlgorithm \<Rightarrow> rng \<Rightarrow> SimConfig \<Rightarrow> Obstacle list \<Rightarrow> Agent \<Rightarrow>
     js_error + (Agent \<times> PSOAlgorithm \<times> rng)" where
  "psoStep s r config obstacles agent =
     (let (s1, mem) = psoRemember s agent
      in case nearestTarget s1 (x agent) (y agent) of
           None \<Rightarrow> Inl TypeError
         | Some nearest \<Rightarrow>
             (let (a', r') = psoMove agent mem nearest r config obstacles
              in Inr (a', s1, r')))"

fun psoLoop ::
  "PSOAlgorithm \<Rightarrow> rng \<Rightarrow> SimConfig \<Rightarrow> Obstacle list \<Rightarrow> Agent list \<Rightarrow>
     js_error + (Agent list \<times> PSOAlgorithm \<times> rng)" where
  "psoLoop s r config obstacles [] = Inr ([], s, r)"
| "psoLoop s r config obstacles (agent # rest) =
     (case psoStep s r config obstacles agent of
        Inl e \<Rightarrow> Inl e
      | Inr (a', s1, r1) \<Rightarrow>
          (case psoLoop s1 r1 config obstacles rest of
             Inl e \<Rightarrow> Inl e
           | Inr (updated, s2, r2) \<Rightarrow> Inr (a' # updated, s2, r2)))"

definition pso_tick ::
  "PSOAlgorithm \<Rightarrow> rng \<Rightarrow> Agent list \<Rightarrow> SimConfig \<Rightarrow> Obstacle list \<Rightarrow>
     js_error + (Agent list \<times> PSOAlgorithm \<times> rng)" where
  "pso_tick s r agents config obstacles =
     (case psoPrelude s r config of
        Inl e \<Rightarrow> Inl e
      | Inr (s1, r1) \<Rightarrow> psoLoop s1 r1 config obstacles agents)"

text \<open>
  A run of consecutive ticks of one instance, each with its own population,
  configuration and obstacles; it stops at the first tick that throws.
\<close>

fun pso_run ::
  "PSOAlgorithm \<Rightarrow> rng \<Rightarrow> (Agent list \<times> SimConfig \<times> Obstacle list) list \<Rightarrow>
     js_error + (PSOAlgorithm \<times> rng)" where
  "pso_run s r [] = Inr (s, r)"
| "pso_run s r ((ags, cfg, obs) # rest) =
     (case pso_tick s r ags cfg obs of
        Inl e \<Rightarrow> Inl e
      | Inr (out, s1, r1) \<Rightarrow> pso_run s1 r1 rest)"


section \<open>The simulation worker (workers/simulation.worker.ts)\<close>

text \<open>
  A strategy instance is one of the three classes behind the \<open>SwarmAlgorithm\<close>
  interface.  A tick of a strategy returns, throws or (for the boids, through the
  spatial hash) does not end.
\<close>

datatype SwarmAlgorithm =
    BoidsInstance
  | AntColonyInstance AntColonyAlgorithm
  | PSOInstance PSOAlgorithm

datatype 'a outcome = Returns 'a | Throws js_error | Diverges

definition getAlgorithm :: "AlgorithmType \<Rightarrow> SwarmAlgorithm" where
  "getAlgorithm t =
     (case t of
        Boids \<Rightarrow> BoidsInstance
      | AntColony \<Rightarrow> AntColonyInstance new_AntColonyAlgorithm
      | PSO \<Rightarrow> PSOInstance new_PSOAlgorithm)"

definition algorithm_tick ::
  "SwarmAlgorithm \<Rightarrow> rng \<Rightarrow> Agent list \<Rightarrow> SimConfig \<Rightarrow> Obstacle list \<Rightarrow> SpatialHash \<Rightarrow>
     (Agent list \<times> SwarmAlgorithm \<times> rng) outcome" where
  "algorithm_tick alg r agents config obstacles spatialHash =
     (case alg of
        BoidsInstance \<Rightarrow>
          (case boids_tick agents config obstacles spatialHash of
             None \<Rightarrow> Diverges
           | Some updated \<Rightarrow> Returns (updated, BoidsInstance, r))
      | AntColonyInstance s \<Rightarrow>
          (case ant_tick s r agents config obstacles of
             Inl e \<Rightarrow> Throws e
           | Inr (updated, s', r') \<Rightarrow> Returns (updated, AntColonyInstance s', r'))
      | PSOInstance s \<Rightarrow>
          (case pso_tick s r agents config obstacles of
             Inl e \<Rightarrow> Throws e
           | Inr (updated, s', r') \<Rightarrow> Returns (updated, PSOInstance s', r')))"

text \<open>
  The module-level variables of the worker.  The variable \<open>algorithm\<close> is named
  \<open>strategy\<close> (the configuration has a field \<open>algorithm\<close>); the timer handle
  \<open>animFrameId\<close> is not modelled: a firing of the timer is the event
  \<open>TimerFired\<close> below.
\<close>

record Worker =
  agents :: "Agent list"
  config :: "SimConfig option"
  obstacles :: "Obstacle list"
  strategy :: "SwarmAlgorithm option"
  spatialHash :: "SpatialHash option"
  tick :: nat
  running :: bool
  debugEnabled :: bool
  posHistory :: "int \<rightharpoonup> Vec2 list"

definition new_Worker :: Worker where
  "new_Worker =
     \<lparr>agents = [], config = None, obstacles = [], strategy = None, spatialHash = None,
      tick = 0, running = False, debugEnabled = False, posHistory = Map.empty\<rparr>"

text \<open>\<open>Partial<SimConfig>\<close>: every field may be absent.\<close>

record PartialSimConfig =
  p_algorithm :: "AlgorithmType option"
  p_agentCount :: "int option"
  p_worldWidth :: "real option"
  p_worldHeight :: "real option"
  p_maxSpeed :: "real option"
  p_maxForce :: "real option"
  p_separationWeight :: "real option"
  p_alignmentWeight :: "real option"
  p_cohesionWeight :: "real option"
  p_separationRadius :: "real option"
  p_neighborRadius :: "real option"
  p_communicationRange :: "real option"
  p_trailLength :: "real option"
  p_speedMultiplier :: "real option"

definition no_change :: PartialSimConfig where
  "no_change =
     \<lparr>p_algorithm = None, p_agentCount = None, p_worldWidth = None, p_worldHeight = None,
      p_maxSpeed = None, p_maxForce = None, p_separationWeight = None,
      p_alignmentWeight = None, p_cohesionWeight = None, p_separationRadius = None,
      p_neighborRadius = None, p_communicationRange = None, p_trailLength = None,
      p_speedMultiplier = None\<rparr>"

definition orElse :: "'a option \<Rightarrow> 'a \<Rightarrow> 'a" where
  "orElse v d = (case v of Some w \<Rightarrow> w | None \<Rightarrow> d)"

text \<open>The spread \<open>{ ...config, ...msg.config }\<close>.\<close>

definition mergeConfig :: "SimConfig \<Rightarrow> PartialSimConfig \<Rightarrow> SimConfig" where
  "mergeConfig c p =
     \<lparr>algorithm = orElse (p_algorithm p) (algorithm c),
      agentCount = orElse (p_agentCount p) (agentCount c),
      worldWidth = orElse (p_worldWidth p) (worldWidth c),
      worldHeight = orElse (p_worldHeight p) (worldHeight c),
      maxSpeed = orElse (p_maxSpeed p) (maxSpeed c),
      maxForce = orElse (p_maxForce p) (maxForce c),
      separationWeight = orElse (p_separationWeight p) (separationWeight c),
      alignmentWeight = orElse (p_alignmentWeight p) (alignmentWeight c),
      cohesionWeight = orElse (p_cohesionWeight p) (cohesionWeight c),
      separationRadius = orElse (p_separationRadius p) (separationRadius c),
      neighborRadius = orElse (p_neighborRadius p) (neighborRadius c),
      communicationRange = orElse (p_communicationRange p) (communicationRange c),
      trailLength = orElse (p_trailLength p) (trailLength c),
      speedMultiplier = orElse (p_speedMultiplier p) (speedMultiplier c)\<rparr>"

datatype WorkerInMessage =
    INIT SimConfig "Agent list" "Obstacle list"
  | UPDATE_CONFIG PartialSimConfig
  | UPDATE_OBSTACLES "Obstacle list"
  | SET_DEBUG bool
  | SET_AGENTS "Agent list"
  | PLAY
  | PAUSE
  | STEP
  | RESET SimConfig

datatype WorkerOutMessage = TICK "Agent list" nat | READY

definition random_v :: "real \<Rightarrow> rng \<Rightarrow> Vec2 \<times> rng" where
  "random_v maxMag r0 =
     (let (u1, r1) = Math_random r0;
          angle = u1 * pi * 2;
          (u2, r2) = Math_random r1;
          rr = u2 * maxMag
      in (\<lparr>x = cos angle * rr, y = sin angle * rr\<rparr>, r2))"

text \<open>
  \<open>spawnAgents\<close>: the loop \<open>for (i = 0; i < cfg.agentCount; i++)\<close>, as a
  recursion on the number of agents still to spawn.
\<close>

fun spawnFrom :: "SimConfig \<Rightarrow> int \<Rightarrow> nat \<Rightarrow> rng \<Rightarrow> Agent list \<times> rng" where
  "spawnFrom cfg i 0 r0 = ([], r0)"
| "spawnFrom cfg i (Suc n) r0 =
     (let (vel, r1) = random_v (maxSpeed cfg * (5 / 10)) r0;
          (u1, r2) = Math_random r1;
          (u2, r3) = Math_random r2;
          a = \<lparr>x = u1 * worldWidth cfg, y = u2 * worldHeight cfg, vx = x vel, vy = y vel,
               agent_id = i, heading = heading_v vel, state = Active\<rparr>;
          (rest, r4) = spawnFrom cfg (i + 1) n r3
      in (a # rest, r4))"

definition spawnAgents :: "SimConfig \<Rightarrow> rng \<Rightarrow> Agent list \<times> rng" where
  "spawnAgents cfg r = spawnFrom cfg 0 (nat (agentCount cfg)) r"

definition ANOMALY_WINDOW :: nat where
  "ANOMALY_WINDOW = 40"

text \<open>
  The body of the anomaly detection loop for one agent of the new population: it
  records the position, evicts the oldest sample beyond the window, and marks the agent
  when the window is full and the agent is less than 8 units from the oldest sample.
\<close>

definition recordPosition :: "(int \<rightharpoonup> Vec2 list) \<Rightarrow> Agent \<Rightarrow> Vec2 list" where
  "recordPosition hist a =
     (let h0 = (case hist (agent_id a) of Some h \<Rightarrow> h | None \<Rightarrow> []);
          h1 = h0 @ [\<lparr>x = x a, y = y a\<rparr>]
      in if length h1 > ANOMALY_WINDOW then tl h1 else h1)"

definition isStuck :: "Vec2 list \<Rightarrow> Agent \<Rightarrow> bool" where
  "isStuck h a =
     (length h \<ge> ANOMALY_WINDOW \<and>
      (let oldest = hd h;
           dx = x a - x oldest;
           dy = y a - y oldest;
           displacement = sqrt (dx * dx + dy * dy)
       in displacement < 8))"

definition detectAnomaly :: "(int \<rightharpoonup> Vec2 list) \<Rightarrow> Agent \<Rightarrow> Agent \<times> (int \<rightharpoonup> Vec2 list)" where
  "detectAnomaly hist a =
     (let h = recordPosition hist a;
          hist' = hist(agent_id a \<mapsto> h)
      in (if isStuck h a then a\<lparr>state := Anomaly\<rparr> else a, hist'))"

fun detectAnomalies :: "(int \<rightharpoonup> Vec2 list) \<Rightarrow> Agent list \<Rightarrow> Agent list \<times> (int \<rightharpoonup> Vec2 list)" where
  "detectAnomalies hist [] = ([], hist)"
| "detectAnomalies hist (a # rest) =
     (let (a', hist1) = detectAnomaly hist a;
          (rest', hist2) = detectAnomalies hist1 rest
      in (a' # rest', hist2))"

text \<open>
  \<open>simTick\<close>.  Without a configuration, a strategy or a spatial hash it returns at
  once and posts nothing.  An exception of the strategy escapes \<open>simTick\<close>; what the
  worker holds afterwards is not modelled.
\<close>

definition simTick :: "Worker \<Rightarrow> rng \<Rightarrow> (Worker \<times> rng \<times> WorkerOutMessage list) outcome" where
  "simTick w r =
     (case (config w, strategy w, spatialHash w) of
        (Some cfg, Some alg, Some sh) \<Rightarrow>
          (let sh1 = insertAll sh (agents w) in
           case algorithm_tick alg r (agents w) cfg (obstacles w) sh1 of
             Diverges \<Rightarrow> Diverges
           | Throws e \<Rightarrow> Throws e
           | Returns (updated, alg', r') \<Rightarrow>
               (let tick' = tick w + 1;
                    (agents', hist') = detectAnomalies (posHistory w) updated;
                    w' = w\<lparr>spatialHash := Some sh1, agents := agents', strategy := Some alg',
                           tick := tick', posHistory := hist'\<rparr>
                in Returns (w', r', [TICK agents' tick'])))
      | _ \<Rightarrow> Returns (w, r, []))"

text \<open>
  \<open>simLoop\<close> runs one tick if the worker is running (and re-arms the timer);
  \<open>startLoop\<close> and \<open>stopLoop\<close> set and clear the flag.
\<close>

definition simLoop :: "Worker \<Rightarrow> rng \<Rightarrow> (Worker \<times> rng \<times> WorkerOutMessage list) outcome" where
  "simLoop w r = (if \<not> running w then Returns (w, r, []) else simTick w r)"

definition startLoop :: "Worker \<Rightarrow> rng \<Rightarrow> (Worker \<times> rng \<times> WorkerOutMessage list) outcome" where
  "startLoop w r = simLoop (w\<lparr>running := True\<rparr>) r"

definition stopLoop :: "Worker \<Rightarrow> Worker" where
  "stopLoop w = w\<lparr>running := False\<rparr>"

text \<open>
  \<open>SET_AGENTS\<close>: the history of the first agent of the new population, if there is
  one, is overwritten in place (\<open>Array.prototype.fill\<close>) with that agent's position.
\<close>

definition setAgents :: "Worker \<Rightarrow> Agent list \<Rightarrow> Worker" where
  "setAgents w new_agents =
     (let w1 = w\<lparr>agents := new_agents\<rparr> in
      case new_agents of
        [] \<Rightarrow> w1
      | a # _ \<Rightarrow>
          (case posHistory w1 (agent_id a) of
             None \<Rightarrow> w1
           | Some h \<Rightarrow>
               w1\<lparr>posHistory := (posHistory w1)(agent_id a \<mapsto>
                     replicate (length h) \<lparr>x = x a, y = y a\<rparr>)\<rparr>))"

text \<open>
  \<open>UPDATE_CONFIG\<close>: the two tests are on the truthiness of the fields of the
  message: every algorithm name is a non-empty string, a neighbour radius is truthy
  unless it is zero.
\<close>

definition updateConfig :: "Worker \<Rightarrow> PartialSimConfig \<Rightarrow> Worker" where
  "updateConfig w p =
     (case config w of
        None \<Rightarrow> w
      | Some c \<Rightarrow>
          (let c' = mergeConfig c p;
               w1 = w\<lparr>config := Some c'\<rparr>;
               w2 = (case p_algorithm p of
                       Some _ \<Rightarrow> w1\<lparr>strategy := Some (getAlgorithm (algorithm c'))\<rparr>
                     | None \<Rightarrow> w1)
           in case p_neighborRadius p of
                Some nr \<Rightarrow>
                  (if nr \<noteq> 0
                   then w2\<lparr>spatialHash := Some (new_SpatialHash (neighborRadius c'))\<rparr>
                   else w2)
              | None \<Rightarrow> w2))"

definition onmessage ::
  "Worker \<Rightarrow> rng \<Rightarrow> WorkerInMessage \<Rightarrow> (Worker \<times> rng \<times> WorkerOutMessage list) outcome" where
  "onmessage w r msg =
     (case msg of
        INIT cfg new_agents obs \<Rightarrow>
          (let (ags, r') = (if length new_agents > 0 then (new_agents, r) else spawnAgents cfg r);
               w' = w\<lparr>config := Some cfg, obstacles := obs,
                      strategy := Some (getAlgorithm (algorithm cfg)),
                      spatialHash := Some (new_SpatialHash (neighborRadius cfg)),
                      agents := ags, tick := 0\<rparr>
           in Returns (w', r', [READY, TICK ags 0]))
      | UPDATE_CONFIG p \<Rightarrow> Returns (updateConfig w p, r, [])
      | UPDATE_OBSTACLES obs \<Rightarrow> Returns (w\<lparr>obstacles := obs\<rparr>, r, [])
      | SET_DEBUG enabled \<Rightarrow> Returns (w\<lparr>debugEnabled := enabled\<rparr>, r, [])
      | SET_AGENTS new_agents \<Rightarrow> Returns (setAgents w new_agents, r, [])
      | PLAY \<Rightarrow> startLoop w r
      | PAUSE \<Rightarrow> Returns (stopLoop w, r, [])
      | STEP \<Rightarrow> simTick (stopLoop w) r
      | RESET cfg \<Rightarrow>
          (let w1 = stopLoop w;
               (ags, r') = spawnAgents cfg r;
               w' = w1\<lparr>config := Some cfg,
                       strategy := Some (getAlgorithm (algorithm cfg)),
                       spatialHash := Some (new_SpatialHash (neighborRadius cfg)),
                       agents := ags, posHistory := Map.empty, tick := 0\<rparr>
           in Returns (w', r', [TICK ags 0])))"

section \<open>Well-formed strategy states\<close>

text \<open>
  What holds of an ant colony instance from \<open>init\<close> on: the grid has
  \<open>gridCols * gridRows\<close> cells, every cell lies between 0 and 12, and every
  remembered food index is below the number of food sources.
\<close>

definition grid_wf :: "AntColonyAlgorithm \<Rightarrow> bool" where
  "grid_wf s = (length (pheromoneGrid s) = nat (gridCols s * gridRows s))"

definition grid_bounded :: "AntColonyAlgorithm \<Rightarrow> bool" where
  "grid_bounded s = (\<forall>v\<in>set (pheromoneGrid s). 0 \<le> v \<and> v \<le> 12)"

definition grid_snapped :: "AntColonyAlgorithm \<Rightarrow> bool" where
  "grid_snapped s = (\<forall>v\<in>set (pheromoneGrid s). v = 0 \<or> 1 / 100 \<le> v)"

definition ants_wf :: "AntColonyAlgorithm \<Rightarrow> bool" where
  "ants_wf s =
     (\<forall>k mem. ants s k = Some mem \<longrightarrow> targetFoodIdx mem < int (length (foodSources s)))"

definition ant_inv :: "AntColonyAlgorithm \<Rightarrow> bool" where
  "ant_inv s =
     (if initialized s then grid_wf s \<and> grid_bounded s \<and> ants_wf s
      else ants s = Map.empty)"

text \<open>The instances a sequence of ticks that return reaches from a new instance.\<close>

inductive ant_reachable :: "AntColonyAlgorithm \<Rightarrow> bool" where
  fresh: "ant_reachable new_AntColonyAlgorithm"
| ticked: "ant_reachable s \<Longrightarrow> ant_tick s r ags cfg obs = Inr (out, s', r') \<Longrightarrow>
           ant_reachable s'"

section \<open>Concrete inputs for the examples\<close>

definition rng_half :: rng where
  "rng_half = (\<lambda>_. 1 / 2)"

definition pso_example :: PSOAlgorithm where
  "pso_example =
     (pso_init new_PSOAlgorithm DEFAULT_CONFIG)
       \<lparr>tickCount := 5,
        particles := [0 \<mapsto> \<lparr>personalBestX = 10, personalBestY = 10,
                              personalBestFitness = Finite 50\<rparr>]\<rparr>"





text \<open>
  A run of consecutive ticks of one ant colony instance, each with its own population,
  configuration and obstacles; it stops at the first tick that throws.
\<close>

fun ant_run ::
  "AntColonyAlgorithm \<Rightarrow> rng \<Rightarrow> (Agent list \<times> SimConfig \<times> Obstacle list) list \<Rightarrow>
     js_error + (AntColonyAlgorithm \<times> rng)" where
  "ant_run s r [] = Inr (s, r)"
| "ant_run s r ((ags, cfg, obs) # rest) =
     (case ant_tick s r ags cfg obs of
        Inl e \<Rightarrow> Inl e
      | Inr (out, s1, r1) \<Rightarrow> ant_run s1 r1 rest)"

text \<open>A world of four grid cells by one, and an ant on its first food source.\<close>

definition small_world :: SimConfig where
  "small_world = DEFAULT_CONFIG\<lparr>worldWidth := 32, worldHeight := 8\<rparr>"

definition ant_on_food :: Agent where
  "ant_on_food = agent_at 0 (272 / 10) (16 / 10)"

definition small_ant :: AntColonyAlgorithm where
  "small_ant = (case ant_init new_AntColonyAlgorithm small_world of
                    Inr s \<Rightarrow> s | Inl e \<Rightarrow> new_AntColonyAlgorithm)"


text \<open>Eight ticks in the small world: the ant is there in the first tick only.\<close>

definition eight_ticks :: "(Agent list \<times> SimConfig \<times> Obstacle list) list" where
  "eight_ticks =
     [([ant_on_food], small_world, []),
      ([], small_world, []), ([], small_world, []), ([], small_world, []),
      ([], small_world, []), ([], small_world, []), ([], small_world, []),
      ([], small_world, [])]"



section \<open>Spatial hash: queries against the brute-force scan\<close>

lemma cellSize_insert_sh: "cellSize (insert_sh sh a) = cellSize sh"
  by (simp add: insert_sh_def Let_def split: prod.splits option.splits)

lemma cellSize_foldl_insert: "cellSize (foldl insert_sh sh as) = cellSize sh"
  by (induction as arbitrary: sh) (simp_all add: cellSize_insert_sh)





lemma cellSize_insertAll: "cellSize (insertAll sh ags) = cellSize sh"
  by (simp add: insertAll_def cellSize_foldl_insert clear_def)







text \<open>
  Claim C9 as stated fails at radius zero: the span is zero, the query point's own cell
  is scanned, and an agent exactly at the query point passes the test
  \<open>0 \<le> 0\<close>.
\<close>

theorem queryRadius_zero_radius_counterexample:
  "queryRadius (insertAll (new_SpatialHash 50) [agent_at 0 0 0]) 0 0 0 (- 1) = Some [agent_at 0 0 0]"
  by (simp add: queryRadius_def insertAll_def insert_sh_def clear_def new_SpatialHash_def
      cellCoords_def key_def inRange_def agent_at_def)

text \<open>
  Claim C9, as amended.  For a positive cell size the query is empty whenever the
  radius is at most \<open>-cellSize\<close>; with cell size zero it is empty for every
  radius that is zero or negative.  For a radius in the interval from \<open>-cellSize\<close>
  (excluded) to zero (included) the span is zero: the query scans the query point's own
  cell and returns the agents there whose squared distance is at most the squared radius
  (at radius zero: the agents at the query point itself).
\<close>

theorem queryRadius_nonpositive_radius:
  "(0 < cellSize sh \<and> rad \<le> - cellSize sh \<longrightarrow>
      queryRadius sh qx qy rad excludeId = Some []) \<and>
   (cellSize sh = 0 \<and> rad \<le> 0 \<longrightarrow>
      queryRadius sh qx qy rad excludeId = Some []) \<and>
   (0 < cellSize sh \<and> - cellSize sh < rad \<and> rad \<le> 0 \<longrightarrow>
      queryRadius sh qx qy rad excludeId =
        Some (case grid sh (cellCoords sh qx qy) of
                None \<Rightarrow> []
              | Some cell \<Rightarrow> filter (inRange qx qy (rad * rad) excludeId) cell))"
proof (intro conjI impI)
  assume a: "0 < cellSize sh \<and> rad \<le> - cellSize sh"
  then have "rad / cellSize sh \<le> - 1"
    by (simp add: field_simps)
  then have "\<lceil>rad / cellSize sh\<rceil> < - \<lceil>rad / cellSize sh\<rceil>" by linarith
  then have "[- \<lceil>rad / cellSize sh\<rceil>..\<lceil>rad / cellSize sh\<rceil>] = []"
    by (rule upto_empty)
  with a show "queryRadius sh qx qy rad excludeId = Some []"
    by (simp add: queryRadius_def Let_def split: prod.splits)
next
  assume "cellSize sh = 0 \<and> rad \<le> 0"
  then show "queryRadius sh qx qy rad excludeId = Some []"
    by (simp add: queryRadius_def)
next
  assume a: "0 < cellSize sh \<and> - cellSize sh < rad \<and> rad \<le> 0"
  then have "- 1 < rad / cellSize sh" "rad / cellSize sh \<le> 0"
    by (simp_all add: pos_less_divide_eq pos_divide_le_eq)
  then have "\<lceil>rad / cellSize sh\<rceil> = 0" by linarith
  with a show "queryRadius sh qx qy rad excludeId =
        Some (case grid sh (cellCoords sh qx qy) of
                None \<Rightarrow> []
              | Some cell \<Rightarrow> filter (inRange qx qy (rad * rad) excludeId) cell)"
    by (simp add: queryRadius_def Let_def key_def split: prod.splits)
qed

theorem queryRadius_nonpositive_radius_witness:
  "queryRadius (insertAll (new_SpatialHash 50) [agent_at 0 0 0]) 3 4 (- 50) (- 1) = Some [] \<and>
   queryRadius (insertAll (new_SpatialHash 0) [agent_at 0 0 0]) 3 4 (- 1) (- 1) = Some [] \<and>
   queryRadius (insertAll (new_SpatialHash 50) [agent_at 0 0 0]) 3 4 (- 5) (- 1) = Some [agent_at 0 0 0]"
proof -
  let ?sh = "insertAll (new_SpatialHash 50) [agent_at 0 0 0]"
  let ?shz = "insertAll (new_SpatialHash 0) [agent_at 0 0 0]"
  have c: "cellSize ?sh = 50" "cellSize ?shz = 0"
    by (simp_all add: insertAll_def insert_sh_def clear_def new_SpatialHash_def cellCoords_def)
  have g: "grid ?sh (cellCoords ?sh 3 4) = Some [agent_at 0 0 0]"
    by (simp add: insertAll_def insert_sh_def clear_def new_SpatialHash_def cellCoords_def
        key_def agent_at_def)
  have i: "inRange 3 4 (- 5 * - 5) (- 1) (agent_at 0 0 0)"
    by (simp add: inRange_def agent_at_def)
  show ?thesis
    using queryRadius_nonpositive_radius[of ?sh "- 50" 3 4 "- 1"]
      queryRadius_nonpositive_radius[of ?shz "- 1" 3 4 "- 1"]
      queryRadius_nonpositive_radius[of ?sh "- 5" 3 4 "- 1"] i
    by (simp add: c g)
qed


text \<open>Example scenario 4 of the specification.\<close>

lemma queryRadius_scenario4: "queryRadius (insertAll (new_SpatialHash 50) [agent_at 0 0 0, agent_at 1 60 0]) 0 0 70 0 = Some [agent_at 1 60 0]"
  by (simp add: queryRadius_def insertAll_def insert_sh_def clear_def new_SpatialHash_def
      cellCoords_def key_def inRange_def agent_at_def upto.simps)

section \<open>The speed limit and the boids tick\<close>


lemma mag_limit_le: "mag (limit v m) \<le> \<bar>m\<bar>"
proof (cases "magSq v > m * m")
  case True
  define q where "q = sqrt (magSq v)"
  have "0 \<le> m * m" by simp
  with True have pos: "0 < magSq v" by linarith
  then have q: "0 < q" "q * q = magSq v" by (simp_all add: q_def)
  have "(x v / q * m) * (x v / q * m) + (y v / q * m) * (y v / q * m)
        = (x v * x v + y v * y v) / (q * q) * (m * m)"
    using q(1) by (simp add: field_simps)
  also have "\<dots> = magSq v / magSq v * (m * m)"
    by (simp only: q(2) magSq_def)
  also have "\<dots> = m * m" using pos by simp
  finally have "mag (limit v m) = sqrt (m * m)"
    using True by (simp add: limit_def Let_def mag_def q_def)
  then show ?thesis by simp
next
  case False
  then have "magSq v \<le> m * m" by simp
  then have "sqrt (magSq v) \<le> sqrt (m * m)" by (rule real_sqrt_le_mono)
  with False show ?thesis by (simp add: limit_def Let_def mag_def magSq_def)
qed

lemma boids_update_id: "agent_id (boids_update a ns cfg obs) = agent_id a"
  by (simp add: boids_update_def Let_def)


lemma boids_update_state: "state (boids_update a ns cfg obs) = Active"
  by (simp add: boids_update_def Let_def)

lemma boids_loop_ids:
  "boids_loop ags cfg obs sh = Some out \<Longrightarrow> map agent_id out = map agent_id ags"
  by (induction ags arbitrary: out)
     (auto simp: boids_update_id split: option.splits)


lemma boids_loop_state:
  "boids_loop ags cfg obs sh = Some out \<Longrightarrow> \<forall>a\<in>set out. state a = Active"
  by (induction ags arbitrary: out)
     (auto simp: boids_update_state split: option.splits)

lemma queryRadius_returns:
  "cellSize sh \<noteq> 0 \<or> rad \<le> 0 \<Longrightarrow> \<exists>res. queryRadius sh qx qy rad ex = Some res"
  by (auto simp: queryRadius_def Let_def split: prod.splits)

lemma boids_loop_returns:
  "cellSize sh \<noteq> 0 \<or> neighborRadius cfg \<le> 0 \<Longrightarrow> \<exists>out. boids_loop ags cfg obs sh = Some out"
proof (induction ags)
  case Nil
  show ?case by simp
next
  case (Cons a ags)
  from queryRadius_returns[OF Cons.prems] obtain ns where
    "queryRadius sh (x a) (y a) (neighborRadius cfg) (agent_id a) = Some ns" by blast
  moreover from Cons.IH[OF Cons.prems] obtain out where "boids_loop ags cfg obs sh = Some out"
    by blast
  ultimately show ?case by simp
qed

section \<open>The ant colony tick: ids, states and speeds\<close>


lemma antMove_id: "agent_id (antMove a mem f cfg obs) = agent_id a"
  by (simp add: antMove_def Let_def)

lemma antMove_state: "state (antMove a mem f cfg obs) = (if mode mem = Return then Stuck else Active)"
  by (simp add: antMove_def Let_def)

lemma antMove_speed: "speed (antMove a mem f cfg obs) \<le> \<bar>antSpeedCap cfg (mode mem)\<bar>"
  using mag_limit_le by (simp add: antMove_def Let_def speed_def mag_def antSpeedCap_def)

lemma ants_depositPheromone_step: "ants (depositPheromone_step cx cy st s off) = ants s"
  by (simp add: depositPheromone_step_def Let_def split: prod.splits)

lemma ants_depositPheromone: "ants (depositPheromone s px py st) = ants s"
  by (simp add: depositPheromone_def Let_def ants_depositPheromone_step)

lemma returnBranch_ants:
  "returnBranch s cfg a mem r = Inr (f, mem', s', r') \<Longrightarrow> ants s' = ants s"
  by (auto simp: returnBranch_def Let_def ants_depositPheromone split: if_splits prod.splits)

lemma antStep_cases:
  assumes "antStep s r cfg obs a = Inr (a', s', r')"
  obtains mem f s1 where "a' = antMove a mem f cfg obs"
    "s' = s1\<lparr>ants := (ants s)(agent_id a \<mapsto> mem)\<rparr>"
  using assms
  by (auto simp: antStep_def Let_def dest!: returnBranch_ants
      split: prod.splits if_splits sum.splits)

lemma antStep_result:
  assumes "antStep s r cfg obs a = Inr (a', s', r')"
  shows "agent_id a' = agent_id a"
    and "\<exists>mem. ants s' (agent_id a) = Some mem \<and>
           state a' = (if mode mem = Return then Stuck else Active) \<and>
           speed a' \<le> \<bar>antSpeedCap cfg (mode mem)\<bar>"
    and "\<forall>k. k \<noteq> agent_id a \<longrightarrow> ants s' k = ants s k"
proof -
  from assms obtain mem f s1 where *: "a' = antMove a mem f cfg obs"
    "s' = s1\<lparr>ants := (ants s)(agent_id a \<mapsto> mem)\<rparr>"
    by (rule antStep_cases)
  show "agent_id a' = agent_id a" using * by (simp add: antMove_id)
  show "\<forall>k. k \<noteq> agent_id a \<longrightarrow> ants s' k = ants s k" using * by simp
  have "ants s' (agent_id a) = Some mem" using * by simp
  moreover have "state a' = (if mode mem = Return then Stuck else Active)"
    using * by (simp add: antMove_state)
  moreover have "speed a' \<le> \<bar>antSpeedCap cfg (mode mem)\<bar>"
    using * by (simp add: antMove_speed)
  ultimately show "\<exists>mem. ants s' (agent_id a) = Some mem \<and>
           state a' = (if mode mem = Return then Stuck else Active) \<and>
           speed a' \<le> \<bar>antSpeedCap cfg (mode mem)\<bar>" by blast
qed

lemma antLoop_ids:
  "antLoop s r cfg obs ags = Inr (out, s', r') \<Longrightarrow> map agent_id out = map agent_id ags"
proof (induction ags arbitrary: s r out)
  case Nil
  then show ?case by simp
next
  case (Cons a ags)
  then show ?case
    by (auto split: sum.splits prod.splits dest: antStep_result(1))
qed

lemma antLoop_speed:
  "antLoop s r cfg obs ags = Inr (out, s', r') \<Longrightarrow>
     \<forall>a\<in>set out. (state a = Stuck \<or> state a = Active) \<and>
        speed a \<le> \<bar>antSpeedCap cfg (if state a = Stuck then Return else Search)\<bar>"
proof (induction ags arbitrary: s r out)
  case Nil
  then show ?case by simp
next
  case (Cons a ags)
  from Cons.prems obtain a1 s1 r1 out1 where
    st: "antStep s r cfg obs a = Inr (a1, s1, r1)" and
    lp: "antLoop s1 r1 cfg obs ags = Inr (out1, s', r')" and
    out: "out = a1 # out1"
    by (auto split: sum.splits prod.splits)
  from antStep_result(2)[OF st] obtain mem :: AntMemory where
    m: "state a1 = (if mode mem = Return then Stuck else Active)"
       "speed a1 \<le> \<bar>antSpeedCap cfg (mode mem)\<bar>" by blast
  have "(state a1 = Stuck \<or> state a1 = Active) \<and>
        speed a1 \<le> \<bar>antSpeedCap cfg (if state a1 = Stuck then Return else Search)\<bar>"
    using m by (cases "mode mem") simp_all
  with Cons.IH[OF lp] out show ?case by simp
qed

section \<open>The particle swarm tick: ids, states and speeds\<close>

lemma wallBounce_abs: "\<bar>fst (wallBounce v p hi)\<bar> = \<bar>v\<bar>"
  by (simp add: wallBounce_def Let_def split: prod.splits if_splits)

lemma psoMove_id: "agent_id (fst (psoMove a mem t r cfg obs)) = agent_id a"
  by (simp add: psoMove_def Let_def case_prod_beta)

lemma psoMove_state:
  "state (fst (psoMove a mem t r cfg obs)) = Stuck \<or> state (fst (psoMove a mem t r cfg obs)) = Active"
  by (simp add: psoMove_def Let_def case_prod_beta)

lemma psoMove_speed: "speed (fst (psoMove a mem t r cfg obs)) \<le> \<bar>maxSpeed cfg\<bar>"
proof -
  let ?a' = "fst (psoMove a mem t r cfg obs)"
  obtain v where v: "\<bar>vx ?a'\<bar> = \<bar>x (limit v (maxSpeed cfg))\<bar>"
     "\<bar>vy ?a'\<bar> = \<bar>y (limit v (maxSpeed cfg))\<bar>"
    by (simp add: psoMove_def Let_def case_prod_beta wallBounce_abs)
  have "vx ?a' * vx ?a' = \<bar>vx ?a'\<bar> * \<bar>vx ?a'\<bar>" "vy ?a' * vy ?a' = \<bar>vy ?a'\<bar> * \<bar>vy ?a'\<bar>"
    by simp_all
  then have "speed ?a' = mag (limit v (maxSpeed cfg))"
    unfolding speed_def mag_def v by simp
  then show ?thesis using mag_limit_le by simp
qed

lemma psoStep_result:
  assumes "psoStep s r cfg obs a = Inr (a', s', r')"
  shows "agent_id a' = agent_id a" "state a' = Stuck \<or> state a' = Active"
    "speed a' \<le> \<bar>maxSpeed cfg\<bar>"
proof -
  from assms obtain mem :: ParticleMemory and t :: Target and r0 :: rng and r1 :: rng
    where "psoMove a mem t r0 cfg obs = (a', r1)"
    by (auto simp: psoStep_def Let_def split: prod.splits option.splits)
  then have "a' = fst (psoMove a mem t r0 cfg obs)" by simp
  then show "agent_id a' = agent_id a" "state a' = Stuck \<or> state a' = Active"
    "speed a' \<le> \<bar>maxSpeed cfg\<bar>"
    by (simp_all add: psoMove_id psoMove_state psoMove_speed)
qed

lemma psoLoop_result:
  "psoLoop s r cfg obs ags = Inr (out, s', r') \<Longrightarrow>
     map agent_id out = map agent_id ags \<and>
     (\<forall>a\<in>set out. (state a = Stuck \<or> state a = Active) \<and> speed a \<le> \<bar>maxSpeed cfg\<bar>)"
proof (induction ags arbitrary: s r out)
  case Nil
  then show ?case by simp
next
  case (Cons a ags)
  from Cons.prems obtain a1 s1 r1 out1 where
    st: "psoStep s r cfg obs a = Inr (a1, s1, r1)" and
    lp: "psoLoop s1 r1 cfg obs ags = Inr (out1, s', r')" and
    out: "out = a1 # out1"
    by (auto split: sum.splits prod.splits)
  from psoStep_result[OF st] Cons.IH[OF lp] out show ?case by simp
qed

section \<open>The pheromone field\<close>

lemma evaporate_cell_bounds: "0 \<le> v \<Longrightarrow> v \<le> 12 \<Longrightarrow> 0 \<le> evaporate_cell v \<and> evaporate_cell v \<le> 12"
  by (simp add: evaporate_cell_def Let_def)

lemma evaporate_cell_snapped: "evaporate_cell v = 0 \<or> 1 / 100 \<le> evaporate_cell v"
  by (simp add: evaporate_cell_def Let_def)

lemma evaporate_props:
  "gridCols (evaporate s) = gridCols s" "gridRows (evaporate s) = gridRows s"
  "ants (evaporate s) = ants s" "foodSources (evaporate s) = foodSources s"
  "initialized (evaporate s) = initialized s" "tickCount (evaporate s) = tickCount s"
  "length (pheromoneGrid (evaporate s)) = length (pheromoneGrid s)"
  by (simp_all add: evaporate_def)

lemma evaporate_wf: "grid_wf s \<Longrightarrow> grid_wf (evaporate s)"
  by (simp add: grid_wf_def evaporate_def)

lemma evaporate_bounded: "grid_bounded s \<Longrightarrow> grid_bounded (evaporate s)"
  by (auto simp: grid_bounded_def evaporate_def evaporate_cell_bounds)

lemma evaporate_snapped: "grid_snapped (evaporate s)"
  using evaporate_cell_snapped by (auto simp: grid_snapped_def evaporate_def)

lemma grid_index_in_range:
  assumes "inGrid s nx ny" "grid_wf s"
  shows "nat (ny * gridCols s + nx) < length (pheromoneGrid s)"
proof -
  from assms(1) have b: "0 \<le> nx" "nx < gridCols s" "0 \<le> ny" "ny < gridRows s"
    by (simp_all add: inGrid_def)
  then have "ny + 1 \<le> gridRows s" "0 \<le> gridCols s" by simp_all
  then have "(ny + 1) * gridCols s \<le> gridRows s * gridCols s"
    by (rule mult_right_mono)
  then have "ny * gridCols s + nx < gridCols s * gridRows s"
    using b by (simp add: algebra_simps)
  moreover have "0 \<le> ny * gridCols s + nx" using b by simp
  ultimately show ?thesis using assms(2) by (simp add: grid_wf_def)
qed

lemma cellAt_bounds:
  assumes "inGrid s nx ny" "grid_wf s" "grid_bounded s"
  shows "0 \<le> cellAt s nx ny \<and> cellAt s nx ny \<le> 12"
  using grid_index_in_range[OF assms(1,2)] assms(3)
  by (simp add: cellAt_def grid_bounded_def)

lemma list_update_all:
  assumes "\<forall>v\<in>set xs. P v" "P w"
  shows "\<forall>v\<in>set (xs[i := w]). P v"
  using assms set_update_subset_insert[of xs i w] by blast

lemma depositPheromone_step_frame:
  "gridCols (depositPheromone_step cx cy st s off) = gridCols s"
  "gridRows (depositPheromone_step cx cy st s off) = gridRows s"
  "foodSources (depositPheromone_step cx cy st s off) = foodSources s"
  "initialized (depositPheromone_step cx cy st s off) = initialized s"
  "tickCount (depositPheromone_step cx cy st s off) = tickCount s"
  "nestX (depositPheromone_step cx cy st s off) = nestX s"
  "nestY (depositPheromone_step cx cy st s off) = nestY s"
  "length (pheromoneGrid (depositPheromone_step cx cy st s off)) = length (pheromoneGrid s)"
  by (simp_all add: depositPheromone_step_def Let_def split: prod.splits)

lemma depositPheromone_step_wf:
  "grid_wf s \<Longrightarrow> grid_wf (depositPheromone_step cx cy st s off)"
  by (simp add: grid_wf_def depositPheromone_step_frame)

lemma depositPheromone_step_bounded:
  assumes "grid_wf s" "grid_bounded s" "0 \<le> st"
  shows "grid_bounded (depositPheromone_step cx cy st s off)"
proof -
  obtain dx dy where off: "off = (dx, dy)" by (cases off)
  show ?thesis
  proof (cases "inGrid s (cx + dx) (cy + dy)")
    case False
    then show ?thesis using assms(2) by (simp add: depositPheromone_step_def off)
  next
    case True
    define a where "a = (if dx = 0 \<and> dy = 0 then st else st * (3 / 10))"
    define i where "i = nat ((cy + dy) * gridCols s + (cx + dx))"
    have a: "0 \<le> a" using assms(3) by (simp add: a_def)
    have "i < length (pheromoneGrid s)"
      unfolding i_def by (rule grid_index_in_range[OF True assms(1)])
    then have "0 \<le> pheromoneGrid s ! i" using assms(2) by (simp add: grid_bounded_def)
    then have v: "0 \<le> min (pheromoneGrid s ! i + a) 12 \<and> min (pheromoneGrid s ! i + a) 12 \<le> 12"
      using a by simp
    have g: "pheromoneGrid (depositPheromone_step cx cy st s off)
             = (pheromoneGrid s)[i := min (pheromoneGrid s ! i + a) 12]"
      using True by (simp add: depositPheromone_step_def off Let_def a_def i_def)
    from assms(2) have "\<forall>v\<in>set (pheromoneGrid s). 0 \<le> v \<and> v \<le> 12"
      by (simp add: grid_bounded_def)
    from list_update_all[OF this, of "min (pheromoneGrid s ! i + a) 12" i] v
    show ?thesis
      unfolding grid_bounded_def g by blast
  qed
qed

lemma depositPheromone_step_snapped:
  assumes "grid_wf s" "grid_bounded s" "grid_snapped s" "1 / 10 \<le> st"
  shows "grid_snapped (depositPheromone_step cx cy st s off)"
proof -
  obtain dx dy where off: "off = (dx, dy)" by (cases off)
  show ?thesis
  proof (cases "inGrid s (cx + dx) (cy + dy)")
    case False
    then show ?thesis using assms(3) by (simp add: depositPheromone_step_def off)
  next
    case True
    define a where "a = (if dx = 0 \<and> dy = 0 then st else st * (3 / 10))"
    define i where "i = nat ((cy + dy) * gridCols s + (cx + dx))"
    have a: "1 / 100 \<le> a" using assms(4) by (simp add: a_def)
    have "i < length (pheromoneGrid s)"
      unfolding i_def by (rule grid_index_in_range[OF True assms(1)])
    then have "0 \<le> pheromoneGrid s ! i" using assms(2) by (simp add: grid_bounded_def)
    then have v: "1 / 100 \<le> min (pheromoneGrid s ! i + a) 12"
      using a by simp
    have g: "pheromoneGrid (depositPheromone_step cx cy st s off)
             = (pheromoneGrid s)[i := min (pheromoneGrid s ! i + a) 12]"
      using True by (simp add: depositPheromone_step_def off Let_def a_def i_def)
    from assms(3) have "\<forall>v\<in>set (pheromoneGrid s). v = 0 \<or> 1 / 100 \<le> v"
      by (simp add: grid_snapped_def)
    from list_update_all[OF this, of "min (pheromoneGrid s ! i + a) 12" i] v
    show ?thesis
      unfolding grid_snapped_def g by blast
  qed
qed

lemma depositPheromone_fold:
  assumes "grid_wf s" "grid_bounded s" "0 \<le> st"
  shows "grid_wf (foldl (depositPheromone_step cx cy st) s offs) \<and>
         grid_bounded (foldl (depositPheromone_step cx cy st) s offs) \<and>
         (grid_snapped s \<and> 1 / 10 \<le> st \<longrightarrow>
            grid_snapped (foldl (depositPheromone_step cx cy st) s offs)) \<and>
         gridCols (foldl (depositPheromone_step cx cy st) s offs) = gridCols s \<and>
         gridRows (foldl (depositPheromone_step cx cy st) s offs) = gridRows s \<and>
         foodSources (foldl (depositPheromone_step cx cy st) s offs) = foodSources s \<and>
         initialized (foldl (depositPheromone_step cx cy st) s offs) = initialized s \<and>
         tickCount (foldl (depositPheromone_step cx cy st) s offs) = tickCount s \<and>
         nestX (foldl (depositPheromone_step cx cy st) s offs) = nestX s \<and>
         nestY (foldl (depositPheromone_step cx cy st) s offs) = nestY s"
  using assms
proof (induction offs arbitrary: s)
  case Nil
  then show ?case by simp
next
  case (Cons off offs)
  let ?s1 = "depositPheromone_step cx cy st s off"
  have 1: "grid_wf ?s1" "grid_bounded ?s1"
    using Cons.prems by (simp_all add: depositPheromone_step_wf depositPheromone_step_bounded)
  have 2: "grid_snapped s \<and> 1 / 10 \<le> st \<Longrightarrow> grid_snapped ?s1"
    using Cons.prems by (simp add: depositPheromone_step_snapped)
  from Cons.IH[OF 1 Cons.prems(3)] 2 show ?case
    by (simp add: depositPheromone_step_frame)
qed

lemma depositPheromone_props:
  assumes "grid_wf s" "grid_bounded s" "0 \<le> st"
  shows "grid_wf (depositPheromone s px py st)"
    "grid_bounded (depositPheromone s px py st)"
    "grid_snapped s \<Longrightarrow> 1 / 10 \<le> st \<Longrightarrow> grid_snapped (depositPheromone s px py st)"
    "gridCols (depositPheromone s px py st) = gridCols s"
    "gridRows (depositPheromone s px py st) = gridRows s"
    "foodSources (depositPheromone s px py st) = foodSources s"
    "initialized (depositPheromone s px py st) = initialized s"
    "tickCount (depositPheromone s px py st) = tickCount s"
    "nestX (depositPheromone s px py st) = nestX s"
    "nestY (depositPheromone s px py st) = nestY s"
  using depositPheromone_fold[OF assms] unfolding depositPheromone_def Let_def
  by blast+

lemma diffuse_acc_inv:
  assumes "grid_wf s" "grid_bounded s" "0 \<le> fst acc" "fst acc \<le> 12 * snd acc" "0 < snd acc"
  shows "0 \<le> fst (diffuse_acc s cx cy acc off) \<and>
         fst (diffuse_acc s cx cy acc off) \<le> 12 * snd (diffuse_acc s cx cy acc off) \<and>
         0 < snd (diffuse_acc s cx cy acc off)"
proof -
  obtain sm ct where acc: "acc = (sm, ct)" by (cases acc)
  obtain dx dy where off: "off = (dx, dy)" by (cases off)
  show ?thesis
  proof (cases "(dx = 0 \<and> dy = 0) \<or> \<not> inGrid s (cx + dx) (cy + dy)")
    case True
    then show ?thesis using assms(3-5) by (auto simp: diffuse_acc_def acc off Let_def)
  next
    case False
    then have "inGrid s (cx + dx) (cy + dy)" by simp
    from cellAt_bounds[OF this assms(1,2)] False assms(3-5)
    show ?thesis by (simp add: diffuse_acc_def acc off Let_def)
  qed
qed

lemma diffuse_fold_inv:
  assumes "grid_wf s" "grid_bounded s" "0 \<le> fst acc" "fst acc \<le> 12 * snd acc" "0 < snd acc"
  shows "0 \<le> fst (foldl (diffuse_acc s cx cy) acc offs) \<and>
         fst (foldl (diffuse_acc s cx cy) acc offs) \<le> 12 * snd (foldl (diffuse_acc s cx cy) acc offs) \<and>
         0 < snd (foldl (diffuse_acc s cx cy) acc offs)"
  using assms(3-5)
proof (induction offs arbitrary: acc)
  case Nil
  then show ?case by simp
next
  case (Cons off offs)
  from diffuse_acc_inv[OF assms(1,2) Cons.prems, of cx cy off]
  show ?case by (simp add: Cons.IH)
qed

lemma diffuse_value_bounds:
  assumes "grid_wf s" "grid_bounded s" "inGrid s cx cy"
  shows "0 \<le> diffuse_value s cx cy \<and> diffuse_value s cx cy \<le> 12"
proof -
  define acc0 where "acc0 = (cellAt s cx cy * (6 / 10), 6 / 10 :: real)"
  from cellAt_bounds[OF assms(3,1,2)]
  have "0 \<le> fst acc0" "fst acc0 \<le> 12 * snd acc0" "0 < snd acc0"
    by (simp_all add: acc0_def)
  from diffuse_fold_inv[OF assms(1,2) this, of cx cy neighbourOffsets]
  obtain sm ct where r: "foldl (diffuse_acc s cx cy) acc0 neighbourOffsets = (sm, ct)"
    and b: "0 \<le> sm" "sm \<le> 12 * ct" "0 < ct"
    by (cases "foldl (diffuse_acc s cx cy) acc0 neighbourOffsets") simp
  have "diffuse_value s cx cy = sm / ct"
    using r by (simp add: diffuse_value_def acc0_def)
  moreover have "0 \<le> sm / ct" using b by simp
  moreover have "sm / ct \<le> 12" using b by (simp add: pos_divide_le_eq)
  ultimately show ?thesis by simp
qed

lemma foldl_preserve:
  assumes "\<And>g k. k \<in> set ks \<Longrightarrow> Q g \<Longrightarrow> Q (F g k)" "Q g"
  shows "Q (foldl F g ks)"
  using assms
proof (induction ks arbitrary: g)
  case Nil
  then show ?case by simp
next
  case (Cons k ks)
  have "Q (F g k)" using Cons.prems by simp
  moreover have "\<And>g k'. k' \<in> set ks \<Longrightarrow> Q g \<Longrightarrow> Q (F g k')" using Cons.prems(1) by simp
  ultimately have "Q (foldl F (F g k) ks)" by (rule Cons.IH[rotated])
  then show ?case by simp
qed

lemma diffuse_row_inv:
  assumes "grid_wf s" "grid_bounded s" "0 \<le> cy" "cy < gridRows s"
    "\<forall>v\<in>set g. 0 \<le> v \<and> v \<le> 12"
  shows "\<forall>v\<in>set (foldl (\<lambda>g' cx. g'[nat (cy * gridCols s + cx) := diffuse_value s cx cy]) g
                    [0..gridCols s - 1]).
           0 \<le> v \<and> v \<le> 12"
proof (rule foldl_preserve[where Q = "\<lambda>g. \<forall>v\<in>set g. 0 \<le> v \<and> v \<le> (12::real)"])
  fix g' :: "real list" and cx
  assume cx: "cx \<in> set [0..gridCols s - 1]" and g': "\<forall>v\<in>set g'. 0 \<le> v \<and> v \<le> 12"
  from cx have "inGrid s cx cy" using assms(3,4) by (simp add: inGrid_def)
  from diffuse_value_bounds[OF assms(1,2) this]
  show "\<forall>v\<in>set (g'[nat (cy * gridCols s + cx) := diffuse_value s cx cy]). 0 \<le> v \<and> v \<le> 12"
    by (rule list_update_all[OF g'])
qed (rule assms(5))

lemma diffuse_rows_inv:
  assumes "grid_wf s" "grid_bounded s"
    "\<forall>v\<in>set g. 0 \<le> v \<and> v \<le> 12"
  shows "\<forall>v\<in>set (foldl (\<lambda>g cy.
              foldl (\<lambda>g' cx. g'[nat (cy * gridCols s + cx) := diffuse_value s cx cy])
                g [0..gridCols s - 1]) g [0..gridRows s - 1]).
           0 \<le> v \<and> v \<le> 12"
proof (rule foldl_preserve[where Q = "\<lambda>g. \<forall>v\<in>set g. 0 \<le> v \<and> v \<le> (12::real)"])
  fix g' :: "real list" and cy
  assume cy: "cy \<in> set [0..gridRows s - 1]" and g': "\<forall>v\<in>set g'. 0 \<le> v \<and> v \<le> 12"
  from cy have "0 \<le> cy" "cy < gridRows s" by simp_all
  then show "\<forall>v\<in>set (foldl (\<lambda>g' cx. g'[nat (cy * gridCols s + cx) := diffuse_value s cx cy])
                g' [0..gridCols s - 1]). 0 \<le> v \<and> v \<le> 12"
    by (rule diffuse_row_inv[OF assms(1,2) _ _ g'])
qed (rule assms(3))

lemma length_foldl_update:
  "length (foldl (\<lambda>g k. g[f k := h k]) g ks) = length g"
  by (induction ks arbitrary: g) simp_all

lemma length_diffuse_rows:
  "length (foldl (\<lambda>g cy.
              foldl (\<lambda>g' cx. g'[nat (cy * c + cx) := dv cx cy]) g cxs) g cys) = length g"
  by (induction cys arbitrary: g) (simp_all add: length_foldl_update)

lemma diffusePheromones_frame:
  "gridCols (diffusePheromones s) = gridCols s"
  "gridRows (diffusePheromones s) = gridRows s"
  "foodSources (diffusePheromones s) = foodSources s"
  "initialized (diffusePheromones s) = initialized s"
  "tickCount (diffusePheromones s) = tickCount s"
  "ants (diffusePheromones s) = ants s"
  "nestX (diffusePheromones s) = nestX s"
  "nestY (diffusePheromones s) = nestY s"
  "length (pheromoneGrid (diffusePheromones s)) = length (pheromoneGrid s)"
  by (simp_all add: diffusePheromones_def Let_def length_diffuse_rows)

lemma diffusePheromones_wf: "grid_wf s \<Longrightarrow> grid_wf (diffusePheromones s)"
  by (simp add: grid_wf_def diffusePheromones_frame)

lemma diffusePheromones_bounded:
  assumes "grid_wf s" "grid_bounded s"
  shows "grid_bounded (diffusePheromones s)"
proof -
  have a: "\<forall>v\<in>set (replicate (length (pheromoneGrid s)) (0::real)). 0 \<le> v \<and> v \<le> 12" by simp
  from diffuse_rows_inv[OF assms a] show ?thesis
    by (simp add: grid_bounded_def diffusePheromones_def Let_def)
qed

section \<open>The ant colony tick: transitions and invariants\<close>

lemma findFood_Some:
  "findFood a foods n = Some fi \<Longrightarrow>
     n \<le> fi \<and> fi - n < length foods \<and>
     dist_v a (foods ! (fi - n)) < radius (foods ! (fi - n)) \<and>
     (\<forall>j < fi - n. \<not> dist_v a (foods ! j) < radius (foods ! j))"
proof (induction foods arbitrary: n)
  case Nil
  then show ?case by simp
next
  case (Cons food foods)
  show ?case
  proof (cases "dist_v a food < radius food")
    case True
    with Cons.prems show ?thesis by simp
  next
    case False
    with Cons.prems have "findFood a foods (Suc n) = Some fi" by simp
    from Cons.IH[OF this] have ih: "Suc n \<le> fi" "fi - Suc n < length foods"
      "dist_v a (foods ! (fi - Suc n)) < radius (foods ! (fi - Suc n))"
      "\<forall>j < fi - Suc n. \<not> dist_v a (foods ! j) < radius (foods ! j)" by simp_all
    from ih(1) obtain d where d: "fi - n = Suc d" "fi - Suc n = d"
      by (metis Suc_diff_le diff_Suc_Suc)
    have "\<forall>j < Suc d. \<not> dist_v a ((food # foods) ! j) < radius ((food # foods) ! j)"
      using False ih(4) d(2) by (auto simp: less_Suc_eq_0_disj)
    with ih d show ?thesis by simp
  qed
qed

lemma findFood_None:
  "findFood a foods n = None \<longleftrightarrow> (\<forall>j < length foods. \<not> dist_v a (foods ! j) < radius (foods ! j))"
proof (induction foods arbitrary: n)
  case Nil
  show ?case by simp
next
  case (Cons food foods)
  show ?case
    by (auto simp: Cons.IH less_Suc_eq_0_disj)
qed

lemma wanderForce_mem:
  "mode (fst (snd (wanderForce mem r))) = mode mem"
  "targetFoodIdx (fst (snd (wanderForce mem r))) = targetFoodIdx mem"
  "stepsSearching (fst (snd (wanderForce mem r))) = stepsSearching mem"
  by (simp_all add: wanderForce_def Let_def case_prod_beta)

lemma senseAndSteerPheromone_mem:
  "mode (fst (snd (senseAndSteerPheromone s a mem r))) = mode mem"
  "targetFoodIdx (fst (snd (senseAndSteerPheromone s a mem r))) = targetFoodIdx mem"
  "stepsSearching (fst (snd (senseAndSteerPheromone s a mem r))) = stepsSearching mem"
  by (simp_all add: senseAndSteerPheromone_def Let_def case_prod_beta)

lemma searchBranch_found:
  assumes "findFood a (foodSources s) 0 = Some fi"
  shows "mode (fst (snd (searchBranch s a mem r))) = Return"
    "targetFoodIdx (fst (snd (searchBranch s a mem r))) = int fi"
    "stepsSearching (fst (snd (searchBranch s a mem r))) = 0"
    "fst (searchBranch s a mem r) = zero_v"
  using assms by (simp_all add: searchBranch_def Let_def)

lemma searchBranch_not_found:
  assumes "findFood a (foodSources s) 0 = None"
  shows "mode (fst (snd (searchBranch s a mem r))) = mode mem"
    "targetFoodIdx (fst (snd (searchBranch s a mem r))) = targetFoodIdx mem"
    "stepsSearching (fst (snd (searchBranch s a mem r))) = stepsSearching mem + 1"
  using assms
  by (simp_all add: searchBranch_def Let_def case_prod_beta wanderForce_mem
      senseAndSteerPheromone_mem)


lemma returnBranch_ok:
  assumes "targetFoodIdx mem < int (length (foodSources s))"
  obtains f mem' st r' where
    "returnBranch s cfg a mem r = Inr (f, mem', depositPheromone s (x a) (y a) st, r')"
    "1 / 2 \<le> st"
    "nestDist s a < 15 \<Longrightarrow>
       mode mem' = Search \<and> targetFoodIdx mem' = - 1 \<and> stepsSearching mem' = 0"
    "\<not> nestDist s a < 15 \<Longrightarrow> mem' = mem"
proof -
  define st where "st = max (5 / 10) (3 - (if targetFoodIdx mem \<ge> 0
                         then dist_v a (foodSources s ! nat (targetFoodIdx mem))
                         else 100) * (5 / 1000))"
  have st: "1 / 2 \<le> st" by (simp add: st_def)
  have nt: "\<not> (targetFoodIdx mem \<ge> 0 \<and> \<not> nat (targetFoodIdx mem) < length (foodSources s))"
    using assms by auto
  show ?thesis
  proof (cases "nestDist s a < 15")
    case True
    then have "returnBranch s cfg a mem r =
       Inr (\<lparr>x = cos (fst (Math_random r) * pi * 2) * 2, y = sin (fst (Math_random r) * pi * 2) * 2\<rparr>,
            mem\<lparr>mode := Search, targetFoodIdx := - 1, stepsSearching := 0,
                wanderAngle := fst (Math_random r) * pi * 2\<rparr>,
            depositPheromone s (x a) (y a) st, snd (Math_random r))"
      using nt unfolding returnBranch_def nestDist_def st_def Let_def case_prod_beta
      by (simp only: if_False if_True) simp
    then show ?thesis
    proof (rule that[OF _ st])
      show "mode (mem\<lparr>mode := Search, targetFoodIdx := - 1, stepsSearching := 0,
                wanderAngle := fst (Math_random r) * pi * 2\<rparr>) = Search \<and>
            targetFoodIdx (mem\<lparr>mode := Search, targetFoodIdx := - 1, stepsSearching := 0,
                wanderAngle := fst (Math_random r) * pi * 2\<rparr>) = - 1 \<and>
            stepsSearching (mem\<lparr>mode := Search, targetFoodIdx := - 1, stepsSearching := 0,
                wanderAngle := fst (Math_random r) * pi * 2\<rparr>) = 0"
        by simp
      show "\<not> nestDist s a < 15 \<Longrightarrow> mem\<lparr>mode := Search, targetFoodIdx := - 1, stepsSearching := 0,
                wanderAngle := fst (Math_random r) * pi * 2\<rparr> = mem"
        using True by simp
    qed
  next
    case False
    then obtain f where "returnBranch s cfg a mem r =
       Inr (f, mem, depositPheromone s (x a) (y a) st, snd (Math_random r))"
      using nt unfolding returnBranch_def nestDist_def st_def Let_def case_prod_beta
      by (simp only: if_False if_True)
    then show ?thesis
    proof (rule that[OF _ st])
      show "nestDist s a < 15 \<Longrightarrow>
         mode mem = Search \<and> targetFoodIdx mem = - 1 \<and> stepsSearching mem = 0"
        using False by simp
    qed simp
  qed
qed

lemma ants_update_simps:
  "grid_wf (s\<lparr>ants := m\<rparr>) = grid_wf s"
  "grid_bounded (s\<lparr>ants := m\<rparr>) = grid_bounded s"
  "grid_snapped (s\<lparr>ants := m\<rparr>) = grid_snapped s"
  by (simp_all add: grid_wf_def grid_bounded_def grid_snapped_def)

lemma ants_wf_update:
  assumes "ants_wf s" "foodSources s' = foodSources s"
    "targetFoodIdx mem < int (length (foodSources s))"
  shows "ants_wf (s'\<lparr>ants := (ants s)(k \<mapsto> mem)\<rparr>)"
  using assms by (simp add: ants_wf_def)

lemma antMemoryOf_idx:
  assumes "ants_wf s"
  shows "targetFoodIdx (fst (antMemoryOf s a r)) < int (length (foodSources s))"
proof (cases "ants s (agent_id a)")
  case None
  have "- 1 < int (length (foodSources s))" by simp
  with None show ?thesis by (simp add: antMemoryOf_def case_prod_beta Let_def)
next
  case (Some mem)
  with assms show ?thesis by (simp add: antMemoryOf_def ants_wf_def)
qed

lemma searchBranch_idx:
  assumes "targetFoodIdx mem < int (length (foodSources s))"
  shows "targetFoodIdx (fst (snd (searchBranch s a mem r))) < int (length (foodSources s))"
proof (cases "findFood a (foodSources s) 0")
  case None
  with assms show ?thesis by (simp add: searchBranch_not_found)
next
  case (Some fi)
  from findFood_Some[OF Some] have "fi < length (foodSources s)" by simp
  with Some show ?thesis by (simp add: searchBranch_found)
qed


lemma afterSearch_idx:
  assumes "ants_wf s"
  shows "targetFoodIdx (fst (snd (afterSearch s r a))) < int (length (foodSources s))"
  using antMemoryOf_idx[OF assms, of a r]
  by (simp add: afterSearch_def case_prod_beta searchBranch_idx)

lemma antStep_unfold:
  "antStep s r cfg obs a =
     (let (force1, mem1, r1) = afterSearch s r a
      in if mode mem1 = Return
         then (case returnBranch s cfg a mem1 r1 of
                 Inl e \<Rightarrow> Inl e
               | Inr (force2, mem2, s2, r2) \<Rightarrow>
                   Inr (antMove a mem2 force2 cfg obs,
                        s2\<lparr>ants := (ants s2)(agent_id a \<mapsto> mem2)\<rparr>, r2))
         else Inr (antMove a mem1 force1 cfg obs,
                   s\<lparr>ants := (ants s)(agent_id a \<mapsto> mem1)\<rparr>, r1))"
  by (simp add: antStep_def afterSearch_def Let_def case_prod_beta)

lemma antStep_ok:
  assumes "grid_wf s" "grid_bounded s" "ants_wf s"
  obtains a' s' r' where "antStep s r cfg obs a = Inr (a', s', r')"
    "grid_wf s'" "grid_bounded s'" "ants_wf s'" "grid_snapped s \<Longrightarrow> grid_snapped s'"
    "gridCols s' = gridCols s" "gridRows s' = gridRows s" "foodSources s' = foodSources s"
    "initialized s' = initialized s" "tickCount s' = tickCount s"
    "nestX s' = nestX s" "nestY s' = nestY s"
proof -
  obtain force1 mem1 r1 where as: "afterSearch s r a = (force1, mem1, r1)"
    by (cases "afterSearch s r a") auto
  from afterSearch_idx[OF assms(3), of r a] as
  have idx: "targetFoodIdx mem1 < int (length (foodSources s))" by simp
  show ?thesis
  proof (cases "mode mem1 = Return")
    case False
    then have eq: "antStep s r cfg obs a =
      Inr (antMove a mem1 force1 cfg obs, s\<lparr>ants := (ants s)(agent_id a \<mapsto> mem1)\<rparr>, r1)"
      by (simp add: antStep_unfold as)
    show ?thesis
      by (rule that[OF eq])
         (simp_all add: ants_update_simps assms ants_wf_update[OF assms(3) _ idx])
  next
    case True
    from returnBranch_ok[OF idx, of cfg a r1] obtain f mem' st r' where
      rb: "returnBranch s cfg a mem1 r1 = Inr (f, mem', depositPheromone s (x a) (y a) st, r')"
      and st: "1 / 2 \<le> st"
      and m1: "nestDist s a < 15 \<Longrightarrow>
         mode mem' = Search \<and> targetFoodIdx mem' = - 1 \<and> stepsSearching mem' = 0"
      and m2: "\<not> nestDist s a < 15 \<Longrightarrow> mem' = mem1"
      by blast
    let ?s2 = "depositPheromone s (x a) (y a) st"
    have st0: "0 \<le> st" "1 / 10 \<le> st" using st by simp_all
    note dp = depositPheromone_props[OF assms(1,2) st0(1), of "x a" "y a"]
    have idx': "targetFoodIdx mem' < int (length (foodSources s))"
      using m1 m2 idx by (cases "nestDist s a < 15") simp_all
    have eq: "antStep s r cfg obs a =
      Inr (antMove a mem' f cfg obs, ?s2\<lparr>ants := (ants s)(agent_id a \<mapsto> mem')\<rparr>, r')"
      using True by (simp add: antStep_unfold as rb ants_depositPheromone)
    have sn: "grid_snapped s \<Longrightarrow> grid_snapped ?s2"
      using dp(3) st0(2) by blast
    show ?thesis
      by (rule that[OF eq])
         (simp_all add: ants_update_simps dp(1,2,4-10) sn ants_wf_update[OF assms(3) dp(6) idx'])
  qed
qed

lemma antLoop_ok:
  assumes "grid_wf s" "grid_bounded s" "ants_wf s"
  shows "\<exists>out s' r'. antLoop s r cfg obs ags = Inr (out, s', r') \<and>
    grid_wf s' \<and> grid_bounded s' \<and> ants_wf s' \<and> (grid_snapped s \<longrightarrow> grid_snapped s') \<and>
    gridCols s' = gridCols s \<and> gridRows s' = gridRows s \<and> foodSources s' = foodSources s \<and>
    initialized s' = initialized s \<and> tickCount s' = tickCount s \<and>
    nestX s' = nestX s \<and> nestY s' = nestY s"
  using assms
proof (induction ags arbitrary: s r)
  case Nil
  then show ?case by simp
next
  case (Cons a ags)
  from antStep_ok[OF Cons.prems, of r cfg obs a] obtain a1 s1 r1 where
    st: "antStep s r cfg obs a = Inr (a1, s1, r1)" and
    inv: "grid_wf s1" "grid_bounded s1" "ants_wf s1" and
    sn: "grid_snapped s \<Longrightarrow> grid_snapped s1" and
    fr: "gridCols s1 = gridCols s" "gridRows s1 = gridRows s" "foodSources s1 = foodSources s"
    "initialized s1 = initialized s" "tickCount s1 = tickCount s"
    "nestX s1 = nestX s" "nestY s1 = nestY s"
    by blast
  from Cons.IH[OF inv, of r1] obtain out s' r' where
    lp: "antLoop s1 r1 cfg obs ags = Inr (out, s', r')" and
    inv': "grid_wf s'" "grid_bounded s'" "ants_wf s'" "grid_snapped s1 \<longrightarrow> grid_snapped s'"
    "gridCols s' = gridCols s1" "gridRows s' = gridRows s1" "foodSources s' = foodSources s1"
    "initialized s' = initialized s1" "tickCount s' = tickCount s1"
    "nestX s' = nestX s1" "nestY s' = nestY s1"
    by blast
  have "antLoop s r cfg obs (a # ags) = Inr (a1 # out, s', r')"
    by (simp add: st lp)
  with inv' sn fr show ?case by simp
qed

lemma antFieldUpdate_props:
  "tickCount (antFieldUpdate s) = tickCount s + 1"
  "initialized (antFieldUpdate s) = initialized s"
  "ants (antFieldUpdate s) = ants s"
  "foodSources (antFieldUpdate s) = foodSources s"
  "gridCols (antFieldUpdate s) = gridCols s"
  "gridRows (antFieldUpdate s) = gridRows s"
  by (simp_all add: antFieldUpdate_def Let_def evaporate_props diffusePheromones_frame)

lemma tick_update_simps:
  "grid_wf (s\<lparr>tickCount := n\<rparr>) = grid_wf s"
  "grid_bounded (s\<lparr>tickCount := n\<rparr>) = grid_bounded s"
  "ants_wf (s\<lparr>tickCount := n\<rparr>) = ants_wf s"
  by (simp_all add: grid_wf_def grid_bounded_def ants_wf_def)

lemma antFieldUpdate_inv:
  assumes "grid_wf s" "grid_bounded s" "ants_wf s"
  shows "grid_wf (antFieldUpdate s)" "grid_bounded (antFieldUpdate s)" "ants_wf (antFieldUpdate s)"
    "(tickCount s + 1) mod 4 \<noteq> 0 \<Longrightarrow> grid_snapped (antFieldUpdate s)"
proof -
  let ?s1 = "s\<lparr>tickCount := tickCount s + 1\<rparr>"
  have 1: "grid_wf (evaporate ?s1)" "grid_bounded (evaporate ?s1)"
    using assms by (simp_all add: evaporate_wf evaporate_bounded tick_update_simps)
  show "grid_wf (antFieldUpdate s)" "grid_bounded (antFieldUpdate s)"
    using 1 by (simp_all add: antFieldUpdate_def Let_def diffusePheromones_wf
        diffusePheromones_bounded)
  show "ants_wf (antFieldUpdate s)"
    using assms(3) by (simp add: ants_wf_def antFieldUpdate_props)
  show "(tickCount s + 1) mod 4 \<noteq> 0 \<Longrightarrow> grid_snapped (antFieldUpdate s)"
    by (simp add: antFieldUpdate_def Let_def evaporate_props evaporate_snapped)
qed

lemma ant_init_Inr:
  assumes "ant_init s cfg = Inr s0"
  shows "initialized s0" "grid_wf s0" "grid_bounded s0" "ants s0 = ants s"
    "tickCount s0 = tickCount s" "length (foodSources s0) = 5"
  using assms
  by (auto simp: ant_init_def Let_def grid_wf_def grid_bounded_def split: if_splits)

lemma ant_init_returns:
  "(\<exists>s0. ant_init s cfg = Inr s0) \<longleftrightarrow>
     0 \<le> \<lceil>worldWidth cfg / 8\<rceil> * \<lceil>worldHeight cfg / 8\<rceil>"
  by (auto simp: ant_init_def Let_def pheromoneCellSize_def)

lemma ant_tick_Inr:
  assumes "ant_inv s" "ant_tick s r ags cfg obs = Inr (out, s', r')"
  shows "ant_inv s'" "initialized s'" "grid_bounded s'" "tickCount s' = tickCount s + 1"
    "tickCount s' mod 4 \<noteq> 0 \<Longrightarrow> grid_snapped s'"
proof -
  obtain s0 where s0: "(if initialized s then Inr s else ant_init s cfg) = Inr s0"
    and lp: "antLoop (antFieldUpdate s0) r cfg obs ags = Inr (out, s', r')"
    using assms(2) by (auto simp: ant_tick_def split: sum.splits)
  have "initialized s0 \<and> grid_wf s0 \<and> grid_bounded s0 \<and> ants_wf s0 \<and> tickCount s0 = tickCount s"
  proof (cases "initialized s")
    case True
    with s0 assms(1) show ?thesis by (simp add: ant_inv_def)
  next
    case False
    with s0 have i: "ant_init s cfg = Inr s0" by simp
    from False assms(1) have "ants s = Map.empty" by (simp add: ant_inv_def)
    with ant_init_Inr[OF i] show ?thesis by (simp add: ants_wf_def)
  qed
  then have ok0: "initialized s0" "grid_wf s0" "grid_bounded s0" "ants_wf s0"
    "tickCount s0 = tickCount s" by simp_all
  note fu = antFieldUpdate_inv[OF ok0(2,3,4)]
  from antLoop_ok[OF fu(1,2,3), of r cfg obs ags] lp
  have r: "grid_wf s'" "grid_bounded s'" "ants_wf s'"
    "grid_snapped (antFieldUpdate s0) \<longrightarrow> grid_snapped s'"
    "initialized s' = initialized (antFieldUpdate s0)"
    "tickCount s' = tickCount (antFieldUpdate s0)"
    by auto
  show "initialized s'" using r(5) ok0(1) by (simp add: antFieldUpdate_props)
  then show "ant_inv s'" using r(1-3) by (simp add: ant_inv_def)
  show "grid_bounded s'" by (rule r(2))
  show tc: "tickCount s' = tickCount s + 1" using r(6) ok0(5) by (simp add: antFieldUpdate_props)
  show "tickCount s' mod 4 \<noteq> 0 \<Longrightarrow> grid_snapped s'"
    using fu(4) r(4) tc ok0(5) by simp
qed

lemma ant_tick_returns:
  assumes "ant_inv s"
    "initialized s \<or> 0 \<le> \<lceil>worldWidth cfg / 8\<rceil> * \<lceil>worldHeight cfg / 8\<rceil>"
  shows "\<exists>out s' r'. ant_tick s r ags cfg obs = Inr (out, s', r')"
proof -
  obtain s0 where s0: "(if initialized s then Inr s else ant_init s cfg) = Inr s0"
    using assms(2) ant_init_returns[of s cfg] by (cases "initialized s") auto
  have ok0: "grid_wf s0 \<and> grid_bounded s0 \<and> ants_wf s0"
  proof (cases "initialized s")
    case True
    with s0 assms(1) show ?thesis by (simp add: ant_inv_def)
  next
    case False
    with s0 have i: "ant_init s cfg = Inr s0" by simp
    from False assms(1) have "ants s = Map.empty" by (simp add: ant_inv_def)
    with ant_init_Inr[OF i] show ?thesis by (simp add: ants_wf_def)
  qed
  then have "grid_wf s0" "grid_bounded s0" "ants_wf s0" by simp_all
  note fu = antFieldUpdate_inv[OF this]
  from antLoop_ok[OF fu(1,2,3), of r cfg obs ags]
  show ?thesis by (auto simp: ant_tick_def s0)
qed

lemma ant_inv_new: "ant_inv new_AntColonyAlgorithm"
  by (simp add: ant_inv_def new_AntColonyAlgorithm_def)

lemma ant_reachable_inv:
  "ant_reachable s \<Longrightarrow>
     ant_inv s \<and> grid_bounded s \<and> (tickCount s mod 4 \<noteq> 0 \<longrightarrow> grid_snapped s)"
proof (induction rule: ant_reachable.induct)
  case fresh
  show ?case
    by (simp add: ant_inv_new) (simp add: grid_bounded_def new_AntColonyAlgorithm_def)
next
  case (ticked s r ags cfg obs out s' r')
  then have "ant_inv s" by simp
  from ant_tick_Inr[OF this ticked.hyps(2)] show ?case by simp
qed

section \<open>The particle swarm tick: memory\<close>

lemma fit_le_refl: "fit_le a a"
  by (cases a) (simp_all add: fit_le_def)

lemma fit_le_trans: "fit_le a b \<Longrightarrow> fit_le b c \<Longrightarrow> fit_le a c"
  by (cases a; cases b; cases c) (simp_all add: fit_le_def)

lemma fit_less_le: "fit_less a b \<Longrightarrow> fit_le a b"
  by (cases a; cases b) (simp_all add: fit_le_def)

lemma psoRemember_frame:
  "targets (fst (psoRemember s a)) = targets s"
  "tickCount (fst (psoRemember s a)) = tickCount s"
  "initialized (fst (psoRemember s a)) = initialized s"
  by (simp_all add: psoRemember_def Let_def case_prod_beta split: option.splits)

lemma psoRemember_particles:
  "particles (fst (psoRemember s a)) = (particles s)(agent_id a \<mapsto> snd (psoRemember s a))"
  by (simp add: psoRemember_def Let_def case_prod_beta split: option.splits)

lemma psoRemember_mem:
  assumes "particles s (agent_id a) = Some m"
  shows "fit_le (personalBestFitness (snd (psoRemember s a))) (personalBestFitness m)"
  using assms
  by (simp add: psoRemember_def Let_def fit_le_refl fit_less_le)

lemma psoRemember_mono:
  assumes "particles s k = Some m"
  shows "\<exists>m'. particles (fst (psoRemember s a)) k = Some m' \<and>
           fit_le (personalBestFitness m') (personalBestFitness m)"
proof (cases "k = agent_id a")
  case True
  with assms psoRemember_mem[of s a m] show ?thesis
    by (simp add: psoRemember_particles)
next
  case False
  with assms show ?thesis by (simp add: psoRemember_particles fit_le_refl)
qed

lemma psoStep_state:
  assumes "psoStep s r cfg obs a = Inr (a', s', r')"
  shows "s' = fst (psoRemember s a)"
  using assms by (auto simp: psoStep_def Let_def split: prod.splits option.splits)

lemma psoLoop_mono:
  "psoLoop s r cfg obs ags = Inr (out, s', r') \<Longrightarrow> particles s k = Some m \<Longrightarrow>
     \<exists>m'. particles s' k = Some m' \<and> fit_le (personalBestFitness m') (personalBestFitness m)"
proof (induction ags arbitrary: s r out m)
  case Nil
  then show ?case by (auto simp: fit_le_refl)
next
  case (Cons a ags)
  from Cons.prems(1) obtain a1 s1 r1 out1 where
    st: "psoStep s r cfg obs a = Inr (a1, s1, r1)" and
    lp: "psoLoop s1 r1 cfg obs ags = Inr (out1, s', r')"
    by (auto split: sum.splits prod.splits)
  from psoRemember_mono[OF Cons.prems(2), of a] psoStep_state[OF st]
  obtain m1 :: ParticleMemory where m1: "particles s1 k = Some m1"
    "fit_le (personalBestFitness m1) (personalBestFitness m)" by auto
  from Cons.IH[OF lp m1(1)] obtain m' :: ParticleMemory where
    "particles s' k = Some m'" "fit_le (personalBestFitness m') (personalBestFitness m1)"
    by auto
  with m1(2) show ?case by (auto intro: fit_le_trans)
qed

lemma psoLoop_frame:
  "psoLoop s r cfg obs ags = Inr (out, s', r') \<Longrightarrow>
     targets s' = targets s \<and> tickCount s' = tickCount s \<and> initialized s' = initialized s"
proof (induction ags arbitrary: s r out)
  case Nil
  then show ?case by simp
next
  case (Cons a ags)
  from Cons.prems(1) obtain a1 s1 r1 out1 where
    st: "psoStep s r cfg obs a = Inr (a1, s1, r1)" and
    lp: "psoLoop s1 r1 cfg obs ags = Inr (out1, s', r')"
    by (auto split: sum.splits prod.splits)
  from Cons.IH[OF lp] psoStep_state[OF st] show ?case
    by (simp add: psoRemember_frame)
qed

lemma psoLoop_dom:
  "psoLoop s r cfg obs ags = Inr (out, s', r') \<Longrightarrow>
     dom (particles s') = dom (particles s) \<union> set (map agent_id ags)"
proof (induction ags arbitrary: s r out)
  case Nil
  then show ?case by simp
next
  case (Cons a ags)
  from Cons.prems(1) obtain a1 s1 r1 out1 where
    st: "psoStep s r cfg obs a = Inr (a1, s1, r1)" and
    lp: "psoLoop s1 r1 cfg obs ags = Inr (out1, s', r')"
    by (auto split: sum.splits prod.splits)
  from psoStep_state[OF st]
  have "particles s1 = (particles s)(agent_id a \<mapsto> snd (psoRemember s a))"
    by (simp add: psoRemember_particles)
  then have "dom (particles s1) = insert (agent_id a) (dom (particles s))" by simp
  with Cons.IH[OF lp] show ?case by auto
qed

lemma teleport_Inr:
  assumes "teleport s r cfg = Inr (s1, r1)"
  shows "particles s1 = Map.empty" "globalBestFitness s1 = Infinity"
    "tickCount s1 = tickCount s" "initialized s1 = initialized s"
    "length (targets s1) = length (targets s)"
  using assms
  by (auto simp: teleport_def Let_def case_prod_beta split: if_splits)

lemma teleport_returns: "targets s \<noteq> [] \<Longrightarrow> \<exists>res. teleport s r cfg = Inr res"
  by (simp add: teleport_def Let_def case_prod_beta)

lemma psoPrelude_Inr:
  assumes "psoPrelude s r cfg = Inr (s1, r1)"
  shows "tickCount s1 = tickCount s + 1" "initialized s1"
    "tickCount s1 mod 120 = 0 \<Longrightarrow> particles s1 = Map.empty \<and> globalBestFitness s1 = Infinity"
    "tickCount s1 mod 120 \<noteq> 0 \<Longrightarrow> initialized s \<Longrightarrow> particles s1 = particles s"
    "initialized s \<Longrightarrow> length (targets s1) = length (targets s)"
    "\<not> initialized s \<Longrightarrow> length (targets s1) = 3"
proof -
  define s0 where "s0 = (if initialized s then s else pso_init s cfg)"
  define s2 where "s2 = s0\<lparr>tickCount := tickCount s0 + 1,
                            targets := map (moveTarget cfg) (targets s0)\<rparr>"
  have p: "psoPrelude s r cfg = (if tickCount s2 mod 120 = 0 then teleport s2 r cfg else Inr (s2, r))"
    by (simp add: psoPrelude_def Let_def s0_def s2_def)
  have s2: "tickCount s2 = tickCount s + 1" "initialized s2"
    "initialized s \<Longrightarrow> particles s2 = particles s"
    "initialized s \<Longrightarrow> length (targets s2) = length (targets s)"
    "\<not> initialized s \<Longrightarrow> length (targets s2) = 3"
    by (simp_all add: s2_def s0_def pso_init_def)
  show "tickCount s1 = tickCount s + 1" "initialized s1"
    "tickCount s1 mod 120 = 0 \<Longrightarrow> particles s1 = Map.empty \<and> globalBestFitness s1 = Infinity"
    "tickCount s1 mod 120 \<noteq> 0 \<Longrightarrow> initialized s \<Longrightarrow> particles s1 = particles s"
    "initialized s \<Longrightarrow> length (targets s1) = length (targets s)"
    "\<not> initialized s \<Longrightarrow> length (targets s1) = 3"
    using assms s2 unfolding p
    by (auto split: if_splits dest: teleport_Inr)
qed

lemma nearestTarget_fold:
  "\<exists>t. fst (foldl (\<lambda>(best, bestD) t.
            (let d = (px - x t)\<^sup>2 + (py - y t)\<^sup>2
             in if fit_less (Finite d) bestD then (Some t, Finite d) else (best, bestD)))
          (Some t0, bd) ts) = Some t"
  by (induction ts arbitrary: t0 bd) (simp_all add: Let_def)

lemma nearestTarget_Some:
  assumes "targets s \<noteq> []"
  shows "\<exists>t. nearestTarget s px py = Some t"
proof -
  from assms obtain t0 ts where "targets s = t0 # ts" by (cases "targets s") auto
  then show ?thesis
    using nearestTarget_fold[of px py t0 Infinity "t0 # ts"]
    by (simp add: nearestTarget_def)
qed

lemma psoStep_returns:
  assumes "targets s \<noteq> []"
  shows "\<exists>a' r'. psoStep s r cfg obs a = Inr (a', fst (psoRemember s a), r')"
proof -
  have "targets (fst (psoRemember s a)) \<noteq> []" using assms by (simp add: psoRemember_frame)
  from nearestTarget_Some[OF this, of "x a" "y a"] obtain t where
    "nearestTarget (fst (psoRemember s a)) (x a) (y a) = Some t" by blast
  then show ?thesis
    by (simp add: psoStep_def Let_def case_prod_beta)
qed

lemma psoLoop_returns:
  "targets s \<noteq> [] \<Longrightarrow> \<exists>out s' r'. psoLoop s r cfg obs ags = Inr (out, s', r')"
proof (induction ags arbitrary: s r)
  case Nil
  then show ?case by simp
next
  case (Cons a ags)
  from psoStep_returns[OF Cons.prems, of r cfg obs a] obtain a1 r1 where
    st: "psoStep s r cfg obs a = Inr (a1, fst (psoRemember s a), r1)" by blast
  have "targets (fst (psoRemember s a)) \<noteq> []" using Cons.prems by (simp add: psoRemember_frame)
  from Cons.IH[OF this, of r1] obtain out s' r' where
    "psoLoop (fst (psoRemember s a)) r1 cfg obs ags = Inr (out, s', r')" by blast
  with st show ?case by simp
qed

lemma psoPrelude_returns:
  assumes "initialized s \<longrightarrow> targets s \<noteq> []"
  shows "\<exists>s1 r1. psoPrelude s r cfg = Inr (s1, r1)"
proof -
  define s0 where "s0 = (if initialized s then s else pso_init s cfg)"
  define s2 where "s2 = s0\<lparr>tickCount := tickCount s0 + 1,
                            targets := map (moveTarget cfg) (targets s0)\<rparr>"
  have p: "psoPrelude s r cfg = (if tickCount s2 mod 120 = 0 then teleport s2 r cfg else Inr (s2, r))"
    by (simp add: psoPrelude_def Let_def s0_def s2_def)
  have "targets s2 \<noteq> []" using assms by (simp add: s2_def s0_def pso_init_def)
  from teleport_returns[OF this, of r cfg] show ?thesis
    unfolding p by auto
qed

lemma pso_tick_Inr:
  assumes "pso_tick s r ags cfg obs = Inr (out, s', r')"
  shows "tickCount s' = tickCount s + 1" "initialized s'"
    "initialized s \<Longrightarrow> length (targets s') = length (targets s)"
    "\<not> initialized s \<Longrightarrow> length (targets s') = 3"
proof -
  from assms obtain s1 r1 where p: "psoPrelude s r cfg = Inr (s1, r1)"
    and l: "psoLoop s1 r1 cfg obs ags = Inr (out, s', r')"
    by (auto simp: pso_tick_def split: sum.splits)
  from psoPrelude_Inr[OF p] psoLoop_frame[OF l]
  show "tickCount s' = tickCount s + 1" "initialized s'"
    "initialized s \<Longrightarrow> length (targets s') = length (targets s)"
    "\<not> initialized s \<Longrightarrow> length (targets s') = 3"
    by simp_all
qed

lemma pso_tick_returns:
  assumes "initialized s \<longrightarrow> targets s \<noteq> []"
  shows "\<exists>out s' r'. pso_tick s r ags cfg obs = Inr (out, s', r')"
proof -
  from psoPrelude_returns[OF assms, of r cfg] obtain s1 r1 where
    p: "psoPrelude s r cfg = Inr (s1, r1)" by blast
  from psoPrelude_Inr(5,6)[OF p] assms have "targets s1 \<noteq> []"
    by (cases "initialized s") auto
  from psoLoop_returns[OF this, of r1 cfg obs ags] p show ?thesis
    by (auto simp: pso_tick_def)
qed

lemma pso_tick_mono:
  assumes "pso_tick s r ags cfg obs = Inr (out, s', r')" "initialized s"
    "(tickCount s + 1) mod 120 \<noteq> 0" "particles s k = Some m"
  shows "\<exists>m'. particles s' k = Some m' \<and> fit_le (personalBestFitness m') (personalBestFitness m)"
proof -
  from assms(1) obtain s1 r1 where p: "psoPrelude s r cfg = Inr (s1, r1)"
    and l: "psoLoop s1 r1 cfg obs ags = Inr (out, s', r')"
    by (auto simp: pso_tick_def split: sum.splits)
  from psoPrelude_Inr(1,4)[OF p] assms(2,3) have "particles s1 = particles s" by simp
  with assms(4) have "particles s1 k = Some m" by simp
  from psoLoop_mono[OF l this] show ?thesis .
qed

lemma pso_tick_teleport:
  assumes "pso_tick s r ags cfg obs = Inr (out, s', r')" "(tickCount s + 1) mod 120 = 0"
  shows "dom (particles s') = set (map agent_id ags)"
proof -
  from assms(1) obtain s1 r1 where p: "psoPrelude s r cfg = Inr (s1, r1)"
    and l: "psoLoop s1 r1 cfg obs ags = Inr (out, s', r')"
    by (auto simp: pso_tick_def split: sum.splits)
  from psoPrelude_Inr(1,3)[OF p] assms(2) have "particles s1 = Map.empty" by simp
  with psoLoop_dom[OF l] show ?thesis by simp
qed

lemma pso_run_mono:
  "pso_run s r ins = Inr (s', r') \<Longrightarrow> initialized s \<Longrightarrow>
   \<forall>j\<in>{1..length ins}. (tickCount s + j) mod 120 \<noteq> 0 \<Longrightarrow> particles s k = Some m \<Longrightarrow>
     \<exists>m'. particles s' k = Some m' \<and> fit_le (personalBestFitness m') (personalBestFitness m)"
proof (induction ins arbitrary: s r m)
  case Nil
  then show ?case by (auto simp: fit_le_refl)
next
  case (Cons i ins)
  obtain ags cfg obs where i: "i = (ags, cfg, obs)" by (cases i)
  from Cons.prems(1) obtain out s1 r1 where
    t: "pso_tick s r ags cfg obs = Inr (out, s1, r1)" and
    rn: "pso_run s1 r1 ins = Inr (s', r')"
    by (auto simp: i split: sum.splits)
  have "(tickCount s + 1) mod 120 \<noteq> 0" using Cons.prems(3) by force
  from pso_tick_mono[OF t Cons.prems(2) this Cons.prems(4)]
  obtain m1 :: ParticleMemory where m1: "particles s1 k = Some m1"
    "fit_le (personalBestFitness m1) (personalBestFitness m)" by auto
  have tc: "tickCount s1 = tickCount s + 1" "initialized s1"
    using pso_tick_Inr[OF t] by simp_all
  have "\<forall>j\<in>{1..length ins}. (tickCount s1 + j) mod 120 \<noteq> 0"
  proof
    fix j assume "j \<in> {1..length ins}"
    then have "Suc j \<in> {1..length (i # ins)}" by simp
    with Cons.prems(3) have "(tickCount s + Suc j) mod 120 \<noteq> 0" by blast
    then show "(tickCount s1 + j) mod 120 \<noteq> 0" by (simp add: tc)
  qed
  from Cons.IH[OF rn tc(2) this m1(1)] obtain m' :: ParticleMemory where
    "particles s' k = Some m'" "fit_le (personalBestFitness m') (personalBestFitness m1)"
    by auto
  with m1(2) show ?case by (auto intro: fit_le_trans)
qed

lemma pso_run_returns:
  "initialized s \<longrightarrow> targets s \<noteq> [] \<Longrightarrow> \<exists>s' r'. pso_run s r ins = Inr (s', r')"
proof (induction ins arbitrary: s r)
  case Nil
  then show ?case by simp
next
  case (Cons i ins)
  obtain ags cfg obs where i: "i = (ags, cfg, obs)" by (cases i)
  from pso_tick_returns[OF Cons.prems, of r ags cfg obs] obtain out s1 r1 where
    t: "pso_tick s r ags cfg obs = Inr (out, s1, r1)" by blast
  from pso_tick_Inr(3,4)[OF t] Cons.prems have "initialized s1 \<longrightarrow> targets s1 \<noteq> []"
    by (cases "initialized s") auto
  from Cons.IH[OF this, of r1] t show ?case by (simp add: i)
qed

section \<open>Particle memory between and at teleports\<close>

text \<open>
  Claim C7.  Between teleports a stored personal-best fitness never increases: over a run
  of consecutive ticks of an initialised instance none of whose tick counts is a multiple
  of 120, the memory of every agent id that had one is still there with a fitness that is
  not larger.  In a tick whose count is a multiple of 120 the part of the tick before the
  loop over the agents leaves no particle memory and the global best at
  \<open>Infinity\<close>; the loop of that same tick then creates the memory of the agents of its
  population anew, and only theirs.
\<close>

theorem pso_personal_best_and_teleport:
  "(initialized s \<and> pso_run s r ins = Inr (s', r') \<and>
      (\<forall>j\<in>{1..length ins}. (tickCount s + j) mod 120 \<noteq> 0) \<and> particles s k = Some m
      \<longrightarrow> (\<exists>m'. particles s' k = Some m' \<and>
                fit_le (personalBestFitness m') (personalBestFitness m))) \<and>
   (psoPrelude s r cfg = Inr (s1, r1) \<and> tickCount s1 mod 120 = 0
      \<longrightarrow> tickCount s1 = tickCount s + 1 \<and> particles s1 = Map.empty \<and>
          globalBestFitness s1 = Infinity) \<and>
   (pso_tick s r ags cfg obs = Inr (out, s2, r2) \<and> (tickCount s + 1) mod 120 = 0
      \<longrightarrow> dom (particles s2) = set (map agent_id ags))"
proof (intro conjI impI)
  assume "initialized s \<and> pso_run s r ins = Inr (s', r') \<and>
      (\<forall>j\<in>{1..length ins}. (tickCount s + j) mod 120 \<noteq> 0) \<and> particles s k = Some m"
  then show "\<exists>m'. particles s' k = Some m' \<and>
                fit_le (personalBestFitness m') (personalBestFitness m)"
    using pso_run_mono[of s r ins s' r' k m] by blast
next
  assume a: "psoPrelude s r cfg = Inr (s1, r1) \<and> tickCount s1 mod 120 = 0"
  then have p: "psoPrelude s r cfg = Inr (s1, r1)" by simp
  from psoPrelude_Inr(1,3)[OF p] a
  show "tickCount s1 = tickCount s + 1" "particles s1 = Map.empty"
    "globalBestFitness s1 = Infinity" by simp_all
next
  assume "pso_tick s r ags cfg obs = Inr (out, s2, r2) \<and> (tickCount s + 1) mod 120 = 0"
  then have "pso_tick s r ags cfg obs = Inr (out, s2, r2)" "(tickCount s + 1) mod 120 = 0"
    by simp_all
  then show "dom (particles s2) = set (map agent_id ags)"
    by (rule pso_tick_teleport)
qed

lemma pso_example_props:
  "initialized pso_example" "targets pso_example \<noteq> []" "tickCount pso_example = 5"
  "particles pso_example 0 =
     Some \<lparr>personalBestX = 10, personalBestY = 10, personalBestFitness = Finite 50\<rparr>"
  by (simp_all add: pso_example_def pso_init_def)

theorem pso_personal_best_and_teleport_witness:
  "(\<exists>s' r' m'.
      pso_run pso_example rng_half
        [([agent_at 0 10 10], DEFAULT_CONFIG, []), ([agent_at 0 11 10], DEFAULT_CONFIG, [])]
        = Inr (s', r') \<and>
      particles s' 0 = Some m' \<and> fit_le (personalBestFitness m') (Finite 50)) \<and>
   (\<exists>s1 r1.
      psoPrelude (pso_example\<lparr>tickCount := 119\<rparr>) rng_half DEFAULT_CONFIG = Inr (s1, r1) \<and>
      tickCount s1 = 120 \<and> particles s1 = Map.empty \<and> globalBestFitness s1 = Infinity) \<and>
   (\<exists>out s2 r2.
      pso_tick (pso_example\<lparr>tickCount := 119\<rparr>) rng_half [agent_at 7 10 10] DEFAULT_CONFIG []
        = Inr (out, s2, r2) \<and>
      dom (particles s2) = {7})"
proof (intro conjI)
  let ?ins = "[([agent_at 0 10 10], DEFAULT_CONFIG, []), ([agent_at 0 11 10], DEFAULT_CONFIG, [])]"
  let ?m = "\<lparr>personalBestX = 10, personalBestY = 10, personalBestFitness = Finite 50\<rparr>"
  from pso_run_returns[of pso_example rng_half ?ins] pso_example_props
  obtain s' r' where run: "pso_run pso_example rng_half ?ins = Inr (s', r')" by blast
  have nt: "\<forall>j\<in>{1..length ?ins}. (tickCount pso_example + j) mod 120 \<noteq> 0"
    by (auto simp: pso_example_props)
  from pso_personal_best_and_teleport[of pso_example rng_half ?ins s' r' 0 ?m]
    run nt pso_example_props
  have "\<exists>m'. particles s' 0 = Some m' \<and> fit_le (personalBestFitness m') (Finite 50)"
    by simp
  with run show "\<exists>s' r' m'. pso_run pso_example rng_half ?ins = Inr (s', r') \<and>
      particles s' 0 = Some m' \<and> fit_le (personalBestFitness m') (Finite 50)"
    by blast
next
  let ?s = "pso_example\<lparr>tickCount := 119\<rparr>"
  have t: "initialized ?s \<longrightarrow> targets ?s \<noteq> []" "tickCount ?s = 119"
    using pso_example_props by simp_all
  from psoPrelude_returns[OF t(1), of rng_half DEFAULT_CONFIG] obtain s1 r1 where
    p: "psoPrelude ?s rng_half DEFAULT_CONFIG = Inr (s1, r1)" by blast
  from psoPrelude_Inr(1)[OF p] have tc: "tickCount s1 = 120" by simp
  from pso_personal_best_and_teleport[of ?s rng_half _ _ _ _ _ DEFAULT_CONFIG s1 r1] p tc
  have "particles s1 = Map.empty \<and> globalBestFitness s1 = Infinity" by simp
  with p tc show "\<exists>s1 r1. psoPrelude ?s rng_half DEFAULT_CONFIG = Inr (s1, r1) \<and>
      tickCount s1 = 120 \<and> particles s1 = Map.empty \<and> globalBestFitness s1 = Infinity"
    by blast
next
  let ?s = "pso_example\<lparr>tickCount := 119\<rparr>"
  have t: "initialized ?s \<longrightarrow> targets ?s \<noteq> []" "tickCount ?s = 119"
    using pso_example_props by simp_all
  from pso_tick_returns[OF t(1), of rng_half "[agent_at 7 10 10]" DEFAULT_CONFIG "[]"]
  obtain out s2 r2 where
    p: "pso_tick ?s rng_half [agent_at 7 10 10] DEFAULT_CONFIG [] = Inr (out, s2, r2)" by blast
  from pso_personal_best_and_teleport[of ?s rng_half _ _ _ _ _ DEFAULT_CONFIG _ _
      "[agent_at 7 10 10]" "[]" out s2 r2] p t(2)
  have "dom (particles s2) = {7}" by (simp add: agent_at_def)
  with p show "\<exists>out s2 r2.
      pso_tick ?s rng_half [agent_at 7 10 10] DEFAULT_CONFIG [] = Inr (out, s2, r2) \<and>
      dom (particles s2) = {7}" by blast
qed

section \<open>Every tick keeps the ids in place\<close>

lemma ids_from_map:
  assumes "map agent_id out = map agent_id ags"
  shows "length out = length ags \<and> (\<forall>i<length ags. agent_id (out ! i) = agent_id (ags ! i))"
proof -
  from assms have l: "length out = length ags" by (rule map_eq_imp_length_eq)
  have "\<forall>i<length ags. agent_id (out ! i) = agent_id (ags ! i)"
  proof (intro allI impI)
    fix i assume i: "i < length ags"
    then have "agent_id (out ! i) = map agent_id out ! i" using l by simp
    also have "\<dots> = map agent_id ags ! i" by (simp only: assms)
    also have "\<dots> = agent_id (ags ! i)" using i by simp
    finally show "agent_id (out ! i) = agent_id (ags ! i)" .
  qed
  with l show ?thesis by simp
qed

lemma ant_tick_ids:
  "ant_tick s r ags cfg obs = Inr (out, s', r') \<Longrightarrow> map agent_id out = map agent_id ags"
  by (auto simp: ant_tick_def split: sum.splits dest: antLoop_ids)

lemma ant_tick_speed:
  "ant_tick s r ags cfg obs = Inr (out, s', r') \<Longrightarrow>
     \<forall>a\<in>set out. (state a = Stuck \<or> state a = Active) \<and>
        speed a \<le> \<bar>antSpeedCap cfg (if state a = Stuck then Return else Search)\<bar>"
  by (auto simp: ant_tick_def split: sum.splits dest!: antLoop_speed)

lemma pso_tick_result:
  "pso_tick s r ags cfg obs = Inr (out, s', r') \<Longrightarrow>
     map agent_id out = map agent_id ags \<and>
     (\<forall>a\<in>set out. (state a = Stuck \<or> state a = Active) \<and> speed a \<le> \<bar>maxSpeed cfg\<bar>)"
  by (auto simp: pso_tick_def split: sum.splits dest!: psoLoop_result)

lemma algorithm_tick_ids:
  assumes "algorithm_tick alg r ags cfg obs sh = Returns (out, alg', r')"
  shows "map agent_id out = map agent_id ags"
proof (cases alg)
  case BoidsInstance
  with assms show ?thesis
    by (auto simp: algorithm_tick_def boids_tick_def split: option.splits dest: boids_loop_ids)
next
  case (AntColonyInstance s)
  with assms show ?thesis
    by (auto simp: algorithm_tick_def split: sum.splits dest: ant_tick_ids)
next
  case (PSOInstance s)
  with assms show ?thesis
    by (auto simp: algorithm_tick_def split: sum.splits dest: pso_tick_result)
qed

lemma algorithm_tick_states:
  assumes "algorithm_tick alg r ags cfg obs sh = Returns (out, alg', r')"
  shows "\<forall>a\<in>set out. state a \<noteq> Anomaly"
proof (cases alg)
  case BoidsInstance
  with assms show ?thesis
    by (auto simp: algorithm_tick_def boids_tick_def split: option.splits dest!: boids_loop_state)
next
  case (AntColonyInstance s)
  with assms show ?thesis
    by (auto simp: algorithm_tick_def split: sum.splits dest!: ant_tick_speed)
next
  case (PSOInstance s)
  with assms show ?thesis
    by (auto simp: algorithm_tick_def split: sum.splits dest!: pso_tick_result)
qed

lemma algorithm_tick_returns:
  assumes "case alg of
             BoidsInstance \<Rightarrow> cellSize sh \<noteq> 0 \<or> neighborRadius cfg \<le> 0
           | AntColonyInstance s \<Rightarrow> ant_inv s \<and>
               (initialized s \<or> 0 \<le> \<lceil>worldWidth cfg / 8\<rceil> * \<lceil>worldHeight cfg / 8\<rceil>)
           | PSOInstance s \<Rightarrow> (initialized s \<longrightarrow> targets s \<noteq> [])"
  shows "\<exists>out alg' r'. algorithm_tick alg r ags cfg obs sh = Returns (out, alg', r')"
proof (cases alg)
  case BoidsInstance
  with assms boids_loop_returns[of sh cfg ags obs] show ?thesis
    by (auto simp: algorithm_tick_def boids_tick_def)
next
  case (AntColonyInstance s)
  with assms ant_tick_returns[of s cfg r ags obs] show ?thesis
    by (auto simp: algorithm_tick_def)
next
  case (PSOInstance s)
  with assms pso_tick_returns[of s r ags cfg obs] show ?thesis
    by (auto simp: algorithm_tick_def)
qed

text \<open>
  Claim C10.  Whenever the tick of a strategy returns, the population it returns has the
  length of the input and, at every array position, the id of the input agent at that
  position.
\<close>

theorem tick_preserves_ids:
  "algorithm_tick alg r ags cfg obs sh = Returns (out, alg', r') \<Longrightarrow>
     length out = length ags \<and> (\<forall>i<length ags. agent_id (out ! i) = agent_id (ags ! i))"
  by (rule ids_from_map) (rule algorithm_tick_ids)

theorem tick_preserves_ids_witness:
  "(\<exists>out alg' r'.
      algorithm_tick BoidsInstance rng_half [agent_at 7 10 10, agent_at 3 20 10] DEFAULT_CONFIG []
        (insertAll (new_SpatialHash 60) [agent_at 7 10 10, agent_at 3 20 10])
        = Returns (out, alg', r') \<and>
      length out = 2 \<and> agent_id (out ! 0) = 7 \<and> agent_id (out ! 1) = 3) \<and>
   (\<exists>out alg' r'.
      algorithm_tick (AntColonyInstance new_AntColonyAlgorithm) rng_half
        [agent_at 7 10 10, agent_at 3 20 10] DEFAULT_CONFIG [] (new_SpatialHash 60)
        = Returns (out, alg', r') \<and>
      length out = 2 \<and> agent_id (out ! 0) = 7 \<and> agent_id (out ! 1) = 3) \<and>
   (\<exists>out alg' r'.
      algorithm_tick (PSOInstance new_PSOAlgorithm) rng_half
        [agent_at 7 10 10, agent_at 3 20 10] DEFAULT_CONFIG [] (new_SpatialHash 60)
        = Returns (out, alg', r') \<and>
      length out = 2 \<and> agent_id (out ! 0) = 7 \<and> agent_id (out ! 1) = 3)"
proof -
  let ?ags = "[agent_at 7 10 10, agent_at 3 20 10]"
  have w: "\<exists>out alg' r'. algorithm_tick alg rng_half ?ags DEFAULT_CONFIG [] sh = Returns (out, alg', r') \<and>
      length out = 2 \<and> agent_id (out ! 0) = 7 \<and> agent_id (out ! 1) = 3"
    if "\<exists>out alg' r'. algorithm_tick alg rng_half ?ags DEFAULT_CONFIG [] sh = Returns (out, alg', r')"
    for alg sh
  proof -
    from that obtain out alg' r' where
      t: "algorithm_tick alg rng_half ?ags DEFAULT_CONFIG [] sh = Returns (out, alg', r')"
      by blast
    from tick_preserves_ids[OF t]
    have "length out = 2" "agent_id (out ! 0) = 7" "agent_id (out ! 1) = 3"
      by (simp_all add: agent_at_def)
    with t show ?thesis by blast
  qed
  have "cellSize (insertAll (new_SpatialHash 60) ?ags) \<noteq> 0"
    by (simp add: cellSize_insertAll new_SpatialHash_def)
  then have b: "\<exists>out alg' r'. algorithm_tick BoidsInstance rng_half ?ags DEFAULT_CONFIG []
        (insertAll (new_SpatialHash 60) ?ags) = Returns (out, alg', r')"
    by (intro algorithm_tick_returns) simp
  have a: "\<exists>out alg' r'. algorithm_tick (AntColonyInstance new_AntColonyAlgorithm) rng_half
        ?ags DEFAULT_CONFIG [] (new_SpatialHash 60) = Returns (out, alg', r')"
    by (intro algorithm_tick_returns) (simp add: ant_inv_new DEFAULT_CONFIG_def)
  have p: "\<exists>out alg' r'. algorithm_tick (PSOInstance new_PSOAlgorithm) rng_half
        ?ags DEFAULT_CONFIG [] (new_SpatialHash 60) = Returns (out, alg', r')"
    by (intro algorithm_tick_returns) (simp add: new_PSOAlgorithm_def)
  from w[OF b] w[OF a] w[OF p] show ?thesis by blast
qed

section \<open>The speed caps\<close>




section \<open>The mode transitions of an ant\<close>

lemma findFood_iff:
  "(\<exists>fi. findFood a (foodSources s) 0 = Some fi) \<longleftrightarrow> (\<exists>fi. foodInReach s a fi)"
proof -
  have "findFood a (foodSources s) 0 \<noteq> None \<longleftrightarrow> (\<exists>fi. foodInReach s a fi)"
    unfolding findFood_None foodInReach_def by auto
  then show ?thesis by auto
qed

lemma findFood_least:
  assumes "findFood a (foodSources s) 0 = Some fi"
  shows "foodInReach s a fi \<and> (\<forall>j<fi. \<not> foodInReach s a j)"
  using findFood_Some[OF assms] by (auto simp: foodInReach_def)














section \<open>The bounds of the pheromone field\<close>

lemma replicate_numeral_unfold:
  "replicate (numeral k) v = v # replicate (pred_numeral k) v"
  by (simp add: numeral_eq_Suc)

lemma returnBranch_grid:
  assumes "returnBranch s cfg a mem r = Inr (f, mem', s', r')"
  shows "s' = depositPheromone s (x a) (y a)
           (max (5 / 10) (3 - (if targetFoodIdx mem \<ge> 0
                               then dist_v a (foodSources s ! nat (targetFoodIdx mem))
                               else 100) * (5 / 1000)))"
  using assms unfolding returnBranch_def Let_def case_prod_beta
  by (auto split: if_splits)

lemma ant_tick_nil:
  "initialized s \<Longrightarrow> ant_tick s r [] cfg obs = Inr ([], antFieldUpdate s, r)"
  by (simp add: ant_tick_def)

lemma small_ant_eq: "ant_init new_AntColonyAlgorithm small_world = Inr small_ant"
  by (simp add: small_ant_def ant_init_def Let_def small_world_def DEFAULT_CONFIG_def
      pheromoneCellSize_def)

lemma small_ant_fields:
  "gridCols small_ant = 4" "gridRows small_ant = 1" "pheromoneGrid small_ant = [0, 0, 0, 0]"
  "foodSources small_ant ! 0 = \<lparr>x = 272 / 10, y = 16 / 10, radius = 25\<rparr>"
  "tickCount small_ant = 0" "initialized small_ant" "ants small_ant = Map.empty"
  by (simp_all add: small_ant_def ant_init_def Let_def small_world_def DEFAULT_CONFIG_def
      pheromoneCellSize_def new_AntColonyAlgorithm_def replicate_numeral_unfold)

lemma small_ant_inv: "grid_wf small_ant" "grid_bounded small_ant" "ants_wf small_ant"
  "length (foodSources small_ant) = 5"
  using ant_init_Inr[OF small_ant_eq]
  by (simp_all add: new_AntColonyAlgorithm_def ants_wf_def)

lemma first_update:
  "pheromoneGrid (antFieldUpdate small_ant) = [0, 0, 0, 0]"
  by (simp add: antFieldUpdate_def Let_def evaporate_def evaporate_cell_def small_ant_fields)

lemma antStep_found_grid:
  assumes "findFood a (foodSources s) 0 = Some fi" "ants s (agent_id a) = None"
    "antStep s r cfg obs a = Inr (a', s', r')"
  shows "pheromoneGrid s' = pheromoneGrid (depositPheromone s (x a) (y a)
           (max (5 / 10) (3 - dist_v a (foodSources s ! fi) * (5 / 1000))))"
proof -
  obtain force1 mem1 r1 where as: "afterSearch s r a = (force1, mem1, r1)"
    by (cases "afterSearch s r a") auto
  have m0: "mode (fst (antMemoryOf s a r)) = Search"
    using assms(2) by (simp add: antMemoryOf_def case_prod_beta)
  have "mem1 = fst (snd (searchBranch s a (fst (antMemoryOf s a r)) (snd (antMemoryOf s a r))))"
    using as m0 by (simp add: afterSearch_def case_prod_beta)
  with searchBranch_found(1,2)[OF assms(1)]
  have m1: "mode mem1 = Return" "targetFoodIdx mem1 = int fi" by simp_all
  with assms(3) obtain f mem2 s2 where
    rb: "returnBranch s cfg a mem1 r1 = Inr (f, mem2, s2, r')" and
    s': "s' = s2\<lparr>ants := (ants s2)(agent_id a \<mapsto> mem2)\<rparr>"
    by (auto simp: antStep_unfold as split: sum.splits)
  from returnBranch_grid[OF rb] m1(2) s' show ?thesis by simp
qed

lemma deposit_small:
  "pheromoneGrid (depositPheromone (antFieldUpdate small_ant) (136 / 5) (8 / 5) 3)
     = [0, 0, 9 / 10, 3]"
proof -
  have c: "\<lfloor>(136 / 5 :: real) / 8\<rfloor> = 3" "\<lfloor>(8 / 5 :: real) / 8\<rfloor> = 0" by simp_all
  show ?thesis
    by (simp add: depositPheromone_def Let_def pheromoneCellSize_def c depositPheromone_step_def
        inGrid_def antFieldUpdate_props small_ant_fields first_update)
qed

lemma first_tick:
  "\<exists>out s1 r1. ant_tick new_AntColonyAlgorithm rng_half [ant_on_food] small_world [] = Inr (out, s1, r1) \<and>
     pheromoneGrid s1 = [0, 0, 9 / 10, 3] \<and> gridCols s1 = 4 \<and> gridRows s1 = 1 \<and>
     initialized s1 \<and> tickCount s1 = 1"
proof -
  let ?s = "antFieldUpdate small_ant"
  note inv = antFieldUpdate_inv(1-3)[OF small_ant_inv(1-3)]
  from antStep_ok[OF inv, of rng_half small_world "[]" ant_on_food]
  obtain a' s1 r1 where st: "antStep ?s rng_half small_world [] ant_on_food = Inr (a', s1, r1)"
    and fr: "gridCols s1 = gridCols ?s" "gridRows s1 = gridRows ?s"
      "initialized s1 = initialized ?s" "tickCount s1 = tickCount ?s"
    by metis
  have d0: "dist_v ant_on_food (foodSources ?s ! 0) = 0"
    by (simp add: dist_v_def ant_on_food_def agent_at_def antFieldUpdate_props small_ant_fields)
  have "foodInReach ?s ant_on_food 0"
    unfolding foodInReach_def d0
    by (simp add: antFieldUpdate_props small_ant_inv small_ant_fields)
  then obtain fi where ff: "findFood ant_on_food (foodSources ?s) 0 = Some fi"
    using findFood_iff[of ant_on_food ?s] by blast
  from findFood_least[OF ff] \<open>foodInReach ?s ant_on_food 0\<close> have "fi = 0"
    by (cases fi) auto
  have "ants ?s (agent_id ant_on_food) = None"
    by (simp add: antFieldUpdate_props small_ant_fields)
  from antStep_found_grid[OF ff this st]
  have "pheromoneGrid s1 = pheromoneGrid (depositPheromone ?s (x ant_on_food) (y ant_on_food) 3)"
    unfolding \<open>fi = 0\<close> d0 by simp
  then have g: "pheromoneGrid s1 = [0, 0, 9 / 10, 3]"
    by (simp add: ant_on_food_def agent_at_def deposit_small)
  have "ant_tick new_AntColonyAlgorithm rng_half [ant_on_food] small_world []
          = Inr ([a'], s1, r1)"
  proof -
    have "\<not> initialized new_AntColonyAlgorithm" by (simp add: new_AntColonyAlgorithm_def)
    then show ?thesis by (simp add: ant_tick_def small_ant_eq st)
  qed
  with g fr show ?thesis
    by (simp add: antFieldUpdate_props small_ant_fields)
qed


lemma funpow_4: "(f ^^ 4) x = f ((f ^^ 3) x)"
  by (simp add: eval_nat_numeral)

lemma diffuse_4x1:
  assumes "gridCols s = 4" "gridRows s = 1" "pheromoneGrid s = [a, b, c, d]"
  shows "pheromoneGrid (diffusePheromones s) =
     [(a * (6 / 10) + b * (5 / 100)) / (65 / 100),
      (b * (6 / 10) + a * (5 / 100) + c * (5 / 100)) / (7 / 10),
      (c * (6 / 10) + b * (5 / 100) + d * (5 / 100)) / (7 / 10),
      (d * (6 / 10) + c * (5 / 100)) / (65 / 100)]"
  by (simp add: diffusePheromones_def Let_def assms upto.simps diffuse_value_def
      neighbourOffsets_def diffuse_acc_def inGrid_def cellAt_def replicate_numeral_unfold)

lemma field_update_4x1:
  assumes "gridCols s = 4" "gridRows s = 1" "pheromoneGrid s = [a, b, c, d]" "tickCount s = n"
  shows "gridCols (antFieldUpdate s) = 4" "gridRows (antFieldUpdate s) = 1"
    "tickCount (antFieldUpdate s) = n + 1"
    "(n + 1) mod 4 \<noteq> 0 \<Longrightarrow>
       pheromoneGrid (antFieldUpdate s) =
         [evaporate_cell a, evaporate_cell b, evaporate_cell c, evaporate_cell d]"
    "(n + 1) mod 4 = 0 \<Longrightarrow>
       pheromoneGrid (antFieldUpdate s) =
         [(evaporate_cell a * (6 / 10) + evaporate_cell b * (5 / 100)) / (65 / 100),
          (evaporate_cell b * (6 / 10) + evaporate_cell a * (5 / 100) + evaporate_cell c * (5 / 100)) / (7 / 10),
          (evaporate_cell c * (6 / 10) + evaporate_cell b * (5 / 100) + evaporate_cell d * (5 / 100)) / (7 / 10),
          (evaporate_cell d * (6 / 10) + evaporate_cell c * (5 / 100)) / (65 / 100)]"
proof -
  show "gridCols (antFieldUpdate s) = 4" "gridRows (antFieldUpdate s) = 1"
    "tickCount (antFieldUpdate s) = n + 1"
    by (simp_all add: antFieldUpdate_props assms)
  let ?e = "evaporate (s\<lparr>tickCount := tickCount s + 1\<rparr>)"
  have e: "gridCols ?e = 4" "gridRows ?e = 1"
    "pheromoneGrid ?e = [evaporate_cell a, evaporate_cell b, evaporate_cell c, evaporate_cell d]"
    by (simp_all add: evaporate_def assms)
  show "(n + 1) mod 4 \<noteq> 0 \<Longrightarrow>
       pheromoneGrid (antFieldUpdate s) =
         [evaporate_cell a, evaporate_cell b, evaporate_cell c, evaporate_cell d]"
    using e(3) by (simp add: antFieldUpdate_def Let_def evaporate_props assms(4))
  show "(n + 1) mod 4 = 0 \<Longrightarrow>
       pheromoneGrid (antFieldUpdate s) =
         [(evaporate_cell a * (6 / 10) + evaporate_cell b * (5 / 100)) / (65 / 100),
          (evaporate_cell b * (6 / 10) + evaporate_cell a * (5 / 100) + evaporate_cell c * (5 / 100)) / (7 / 10),
          (evaporate_cell c * (6 / 10) + evaporate_cell b * (5 / 100) + evaporate_cell d * (5 / 100)) / (7 / 10),
          (evaporate_cell d * (6 / 10) + evaporate_cell c * (5 / 100)) / (65 / 100)]"
    using diffuse_4x1[OF e]
    by (simp add: antFieldUpdate_def Let_def evaporate_props assms(4))
qed


lemma evaporate_cell_0: "evaporate_cell 0 = 0"
  by (simp add: evaporate_cell_def)

lemma evaporate_cell_keep: "1 / 100 \<le> v * (993 / 1000) \<Longrightarrow> evaporate_cell v = v * (993 / 1000)"
  by (simp add: evaporate_cell_def Let_def)

lemma seven_updates:
  assumes "gridCols s1 = 4" "gridRows s1 = 1" "pheromoneGrid s1 = [0, 0, 9 / 10, 3]"
    "tickCount s1 = 1"
  shows "0 < pheromoneGrid (antFieldUpdate (antFieldUpdate (antFieldUpdate (antFieldUpdate
             (antFieldUpdate (antFieldUpdate (antFieldUpdate s1)))))))  ! 0 \<and>
         pheromoneGrid (antFieldUpdate (antFieldUpdate (antFieldUpdate (antFieldUpdate
             (antFieldUpdate (antFieldUpdate (antFieldUpdate s1)))))))  ! 0 < 1 / 100"
proof -
  define s2 where "s2 = antFieldUpdate s1"
  define s3 where "s3 = antFieldUpdate s2"
  define s4 where "s4 = antFieldUpdate s3"
  define s5 where "s5 = antFieldUpdate s4"
  define s6 where "s6 = antFieldUpdate s5"
  define s7 where "s7 = antFieldUpdate s6"
  define s8 where "s8 = antFieldUpdate s7"
  note u2 = field_update_4x1[OF assms, folded s2_def]
  have g2: "pheromoneGrid s2 = [0, 0, 8937 / 10000, 2979 / 1000]"
    using u2(4) by (simp add: evaporate_cell_def)
  have t2: "tickCount s2 = 2" using u2(3) by simp
  note u3 = field_update_4x1[OF u2(1,2) g2 t2, folded s3_def]
  have g3: "pheromoneGrid s3 = [0, 0, 8874441 / 10000000, 2958147 / 1000000]"
    using u3(4) by (simp add: evaporate_cell_def)
  have t3: "tickCount s3 = 3" using u3(3) by simp
  note u4 = field_update_4x1[OF u3(1,2) g3 t3, folded s4_def]
  have g4: "pheromoneGrid s4 =
      [0, 8812319913 / 140000000000,
       pheromoneGrid s4 ! 2, pheromoneGrid s4 ! 3]"
    using u4(5) by (simp add: evaporate_cell_def)
  have t4: "tickCount s4 = 4" using u4(3) by simp
  note u5 = field_update_4x1[OF u4(1,2) g4 t4, folded s5_def]
  have g5: "pheromoneGrid s5 =
      [0, 8812319913 / 140000000000 * (993 / 1000),
       pheromoneGrid s5 ! 2, pheromoneGrid s5 ! 3]"
    using u5(4) by (simp add: evaporate_cell_def)
  have t5: "tickCount s5 = 5" using u5(3) by simp
  note u6 = field_update_4x1[OF u5(1,2) g5 t5, folded s6_def]
  have g6: "pheromoneGrid s6 =
      [0, 8812319913 / 140000000000 * (993 / 1000) * (993 / 1000),
       pheromoneGrid s6 ! 2, pheromoneGrid s6 ! 3]"
    using u6(4) by (simp add: evaporate_cell_def)
  have t6: "tickCount s6 = 6" using u6(3) by simp
  note u7 = field_update_4x1[OF u6(1,2) g6 t6, folded s7_def]
  have g7: "pheromoneGrid s7 =
      [0, 8812319913 / 140000000000 * (993 / 1000) * (993 / 1000) * (993 / 1000),
       pheromoneGrid s7 ! 2, pheromoneGrid s7 ! 3]"
    using u7(4) by (simp add: evaporate_cell_def)
  have t7: "tickCount s7 = 7" using u7(3) by simp
  note u8 = field_update_4x1[OF u7(1,2) g7 t7, folded s8_def]
  have "0 < pheromoneGrid s8 ! 0 \<and> pheromoneGrid s8 ! 0 < 1 / 100"
    using u8(5) by (simp add: evaporate_cell_def)
  then show ?thesis
    by (simp add: s8_def s7_def s6_def s5_def s4_def s3_def s2_def)
qed

lemma ant_run_reachable:
  "ant_run s r ins = Inr (s', r') \<Longrightarrow> ant_reachable s \<Longrightarrow> ant_reachable s'"
proof (induction ins arbitrary: s r)
  case Nil
  then show ?case by simp
next
  case (Cons i ins)
  obtain ags cfg obs where i: "i = (ags, cfg, obs)" by (cases i)
  from Cons.prems(1) obtain out s1 r1 where
    t: "ant_tick s r ags cfg obs = Inr (out, s1, r1)" and
    rn: "ant_run s1 r1 ins = Inr (s', r')"
    by (auto simp: i split: sum.splits)
  from ant_reachable.ticked[OF Cons.prems(2) t] have "ant_reachable s1" .
  from Cons.IH[OF rn this] show ?case .
qed

text \<open>
  Claim C6 as stated fails on the ticks that diffuse.  In a world of four cells by one an
  ant standing on the first food source deposits in the first tick; the population is
  empty afterwards.  The diffusion of tick 4 carries pheromone into the second cell, the
  diffusion of tick 8 from there into the first cell, which then holds about 0.0047:
  not zero and below 0.01.  Nothing snaps it before the evaporation of the next tick.
\<close>

theorem pheromone_snap_counterexample:
  "\<not> isl (ant_run new_AntColonyAlgorithm rng_half eight_ticks) \<and>
   0 < pheromoneGrid (fst (projr (ant_run new_AntColonyAlgorithm rng_half eight_ticks))) ! 0 \<and>
   pheromoneGrid (fst (projr (ant_run new_AntColonyAlgorithm rng_half eight_ticks))) ! 0 < 1 / 100"
proof -
  from first_tick obtain out s1 r1 where
    t1: "ant_tick new_AntColonyAlgorithm rng_half [ant_on_food] small_world [] = Inr (out, s1, r1)"
    and f1: "gridCols s1 = 4" "gridRows s1 = 1" "pheromoneGrid s1 = [0, 0, 9 / 10, 3]"
      "tickCount s1 = 1" and i1: "initialized s1"
    by blast
  let ?s8 = "antFieldUpdate (antFieldUpdate (antFieldUpdate (antFieldUpdate
             (antFieldUpdate (antFieldUpdate (antFieldUpdate s1))))))"
  have "ant_run new_AntColonyAlgorithm rng_half eight_ticks = Inr (?s8, r1)"
    by (simp add: eight_ticks_def t1 ant_tick_nil i1 antFieldUpdate_props)
  with seven_updates[OF f1] show ?thesis by simp
qed

text \<open>
  Claim C6, as amended.  In every state that ticks reach from a new instance, every cell
  of the pheromone field lies in the interval from 0 to 12; and after every tick whose
  count is not a multiple of 4 (a tick that evaporates and deposits but does not diffuse)
  no cell holds a nonzero value below 0.01.
\<close>

theorem pheromone_field_bounds:
  "ant_reachable s \<Longrightarrow>
     (\<forall>v\<in>set (pheromoneGrid s). 0 \<le> v \<and> v \<le> 12) \<and>
     (tickCount s mod 4 \<noteq> 0 \<longrightarrow> (\<forall>v\<in>set (pheromoneGrid s). v = 0 \<or> 1 / 100 \<le> v))"
  using ant_reachable_inv[of s] by (simp add: grid_bounded_def grid_snapped_def)

theorem pheromone_field_bounds_witness:
  "\<exists>out s r. ant_tick new_AntColonyAlgorithm rng_half [ant_on_food] small_world [] = Inr (out, s, r) \<and>
     tickCount s = 1 \<and> pheromoneGrid s = [0, 0, 9 / 10, 3] \<and>
     (\<forall>v\<in>set (pheromoneGrid s). 0 \<le> v \<and> v \<le> 12) \<and>
     (\<forall>v\<in>set (pheromoneGrid s). v = 0 \<or> 1 / 100 \<le> v)"
proof -
  from first_tick obtain out s1 r1 where
    t1: "ant_tick new_AntColonyAlgorithm rng_half [ant_on_food] small_world [] = Inr (out, s1, r1)"
    and f1: "pheromoneGrid s1 = [0, 0, 9 / 10, 3]" "tickCount s1 = 1"
    by blast
  have "ant_reachable s1" by (rule ant_reachable.ticked[OF ant_reachable.fresh t1])
  from pheromone_field_bounds[OF this] f1(2)
  have "(\<forall>v\<in>set (pheromoneGrid s1). 0 \<le> v \<and> v \<le> 12) \<and>
        (\<forall>v\<in>set (pheromoneGrid s1). v = 0 \<or> 1 / 100 \<le> v)" by simp
  with t1 f1 show ?thesis by blast
qed

end
